theory Spec2Isabelle
  imports Main "HOL-Library.Word"
begin

text \<open>
  The dialogue orchestrator of the accent coach: the React component \<open>App\<close> of
  \<open>src/App.js\<close>. The sources hold three revisions of the component. The model follows
  the latest one (the second in \<open>App.js\<close>): its sentence-based chunker, its
  \<open>useCallback\<close> handlers and its guards. The word-based chunker of the revision before
  it is modelled beside the sentence-based one.
\<close>

section \<open>Strings\<close>

text \<open>
  A JavaScript string is a sequence of 16-bit code units; \<open>length\<close>, \<open>trim\<close>,
  \<open>startsWith\<close> and the regular expressions of the source (none has the \<open>u\<close> flag)
  all work on code units. ASCII literals are written with \<open>js\<close>.
\<close>

type_synonym jschar = "16 word"
type_synonym jsstring = "jschar list"

definition js :: "string \<Rightarrow> jsstring" where
  "js s = map of_char s"

text \<open>
  The characters that \<open>\s\<close> matches and that \<open>String.prototype.trim\<close> strips:
  WhiteSpace and LineTerminator of ECMAScript.
\<close>

definition isWhiteSpace :: "jschar \<Rightarrow> bool" where
  "isWhiteSpace c \<longleftrightarrow>
     c \<in> set [0x09, 0x0A, 0x0B, 0x0C, 0x0D, 0x20, 0xA0, 0x1680,
               0x2028, 0x2029, 0x202F, 0x205F, 0x3000, 0xFEFF]
     \<or> (0x2000 \<le> c \<and> c \<le> 0x200A)"

definition trim :: "jsstring \<Rightarrow> jsstring" where
  "trim s = rev (dropWhile isWhiteSpace (rev (dropWhile isWhiteSpace s)))"

definition startsWith :: "jsstring \<Rightarrow> jsstring \<Rightarrow> bool" where
  "startsWith s p \<longleftrightarrow> take (length p) s = p"

section \<open>TextChunker\<close>

text \<open>
  \<open>text.split(/(?<=[.!?])\s+|\n+/)\<close>. The scan keeps the code unit before the current
  position (\<open>prev\<close>) for the look-behind and the piece read so far (\<open>cur\<close>). At each
  position the first alternative is tried first: after one of \<open>. ! ?\<close> a maximal run of
  white space is a separator; otherwise a maximal run of line feeds is one. Both
  alternatives match at least one code unit, so the result always has a last piece,
  possibly empty.
\<close>

definition isTerminal :: "jschar option \<Rightarrow> bool" where
  "isTerminal p = (case p of None \<Rightarrow> False | Some c \<Rightarrow> c \<in> set [0x2E, 0x21, 0x3F])"

function split_go :: "jschar option \<Rightarrow> jsstring \<Rightarrow> jsstring \<Rightarrow> jsstring list" where
  "split_go prev cur [] = [cur]"
| "split_go prev cur (c # cs) =
     (if isTerminal prev \<and> isWhiteSpace c
      then cur # split_go (Some (last (c # takeWhile isWhiteSpace cs))) []
                   (dropWhile isWhiteSpace cs)
      else if c = 0x0A
      then cur # split_go (Some 0x0A) [] (dropWhile (\<lambda>x. x = 0x0A) cs)
      else split_go (Some c) (cur @ [c]) cs)"
  by pat_completeness auto
termination
  by (relation "measure (\<lambda>(prev, cur, s). length s)")
     (auto simp: le_imp_less_Suc length_dropWhile_le)

definition split_sentences :: "jsstring \<Rightarrow> jsstring list" where
  "split_sentences text = split_go None [] text"

text \<open>\<open>const segments = text.split(...).filter(s => s.trim().length > 0)\<close>\<close>

definition segments :: "jsstring \<Rightarrow> jsstring list" where
  "segments text = filter (\<lambda>s. length (trim s) > 0) (split_sentences text)"

text \<open>
  The packing loop of \<open>speakMessage\<close> with its two variables \<open>chunks\<close> and
  \<open>currentChunk\<close>; the first equation is the push of the last chunk after the loop.
\<close>

fun chunk_loop :: "nat \<Rightarrow> jsstring list \<Rightarrow> jsstring list \<Rightarrow> jsstring \<Rightarrow> jsstring list" where
  "chunk_loop maxLen [] chunks currentChunk =
     (if trim currentChunk \<noteq> [] then chunks @ [trim currentChunk] else chunks)"
| "chunk_loop maxLen (s # ss) chunks currentChunk =
     (let segment = trim s in
      if length segment = 0 then chunk_loop maxLen ss chunks currentChunk
      else if length (trim (currentChunk @ [0x20] @ segment)) \<le> maxLen
      then chunk_loop maxLen ss chunks
             (currentChunk @ (if currentChunk \<noteq> [] then [0x20] else []) @ segment)
      else chunk_loop maxLen ss
             (if trim currentChunk \<noteq> [] then chunks @ [trim currentChunk] else chunks)
             segment)"

definition chunk :: "jsstring \<Rightarrow> nat \<Rightarrow> jsstring list" where
  "chunk text maxLen = chunk_loop maxLen (segments text) [] []"

definition maxUtteranceLength :: nat where
  "maxUtteranceLength = 160"

subsection \<open>The word-based chunker of the earlier revision\<close>

text \<open>
  \<open>text.split(/\s+/)\<close>: every maximal run of white space is a separator, so the pieces
  hold no white space; a leading or trailing run leaves an empty first or last piece.
\<close>

function split_spaces :: "jsstring \<Rightarrow> jsstring \<Rightarrow> jsstring list" where
  "split_spaces cur [] = [cur]"
| "split_spaces cur (c # cs) =
     (if isWhiteSpace c then cur # split_spaces [] (dropWhile isWhiteSpace cs)
      else split_spaces (cur @ [c]) cs)"
  by pat_completeness auto
termination
  by (relation "measure (\<lambda>(cur, s). length s)")
     (auto simp: le_imp_less_Suc length_dropWhile_le)

text \<open>The loop over \<open>words\<close>; it always puts a space before the word it appends.\<close>

fun words_loop :: "nat \<Rightarrow> jsstring list \<Rightarrow> jsstring list \<Rightarrow> jsstring \<Rightarrow> jsstring list" where
  "words_loop maxLen [] chunks currentChunk =
     (if trim currentChunk \<noteq> [] then chunks @ [trim currentChunk] else chunks)"
| "words_loop maxLen (word # ws) chunks currentChunk =
     (if length (trim (currentChunk @ [0x20] @ word)) \<le> maxLen
      then words_loop maxLen ws chunks (currentChunk @ [0x20] @ word)
      else words_loop maxLen ws
             (if trim currentChunk \<noteq> [] then chunks @ [trim currentChunk] else chunks)
             word)"

definition chunk_words :: "jsstring \<Rightarrow> nat \<Rightarrow> jsstring list" where
  "chunk_words src maxLen = words_loop maxLen (split_spaces [] src) [] []"

text \<open>
  The word sequence of a string (its maximal runs of non-white-space code units) and the
  joining of chunks with single spaces: the two notions the round-trip property of the
  chunker is stated with.
\<close>

fun split_ws :: "jsstring \<Rightarrow> jsstring list" where
  "split_ws [] = [[]]"
| "split_ws (c # cs) =
     (if isWhiteSpace c then [] # split_ws cs
      else (case split_ws cs of [] \<Rightarrow> [[c]] | w # ws \<Rightarrow> (c # w) # ws))"

definition words_of :: "jsstring \<Rightarrow> jsstring list" where
  "words_of s = filter (\<lambda>w. w \<noteq> []) (split_ws s)"

fun join_sp :: "jsstring list \<Rightarrow> jsstring" where
  "join_sp [] = []"
| "join_sp [c] = c"
| "join_sp (c # d # cs) = c @ [0x20] @ join_sp (d # cs)"

definition trimmed :: "jsstring \<Rightarrow> bool" where
  "trimmed s \<longleftrightarrow> s \<noteq> [] \<and> \<not> isWhiteSpace (hd s) \<and> \<not> isWhiteSpace (last s)"

definition chunk_ok :: "nat \<Rightarrow> jsstring set \<Rightarrow> jsstring \<Rightarrow> bool" where
  "chunk_ok m S c \<longleftrightarrow> trimmed c \<and> (length c \<le> m \<or> c \<in> S)"

definition solid :: "jsstring \<Rightarrow> bool" where
  "solid w \<longleftrightarrow> (\<forall>c\<in>set w. \<not> isWhiteSpace c)"

definition cur_ok :: "nat \<Rightarrow> jsstring set \<Rightarrow> jsstring \<Rightarrow> bool" where
  "cur_ok m W cur \<longleftrightarrow> trim cur = [] \<or> length (trim cur) \<le> m \<or> (cur \<in> W \<and> trim cur = cur)"

section \<open>Data model\<close>

datatype role = User | Model

record turn =
  role :: role
  "text" :: jsstring

datatype feature = Vocab | Rephrase

text \<open>One entry \<open>{role, parts: [{text}]}\<close> of the request body.\<close>

record content =
  c_role :: role
  c_text :: jsstring

text \<open>
  The calls the component makes to its collaborators, in the order it makes them: the
  HTTP request with its \<open>contents\<close>, an utterance handed to the synthesis engine,
  \<open>synth.cancel()\<close>, and \<open>start()\<close>/\<open>stop()\<close> of the recognition session.
\<close>

datatype effect =
    Fetch "content list"
  | SynthSpeak jsstring
  | SynthCancel
  | RecognitionStart
  | RecognitionStop

text \<open>
  The parsed response body, as far as \<open>sendPromptToGemini\<close> inspects it: missing
  properties are \<open>None\<close>, and a part is its \<open>text\<close>. \<open>Thrown\<close> is whatever raises
  inside \<open>try\<close> (a rejected \<open>fetch\<close>, a body that is not JSON) and lands in the
  \<open>catch\<close> block.
\<close>

datatype json_content = Content (parts: "jsstring list option")

datatype json_candidate = Candidate (content: "json_content option")

datatype json_error = ApiError (err_message: "jsstring option")

datatype json_result =
  Result (candidates: "json_candidate list option") (result_error: "json_error option")

datatype fetch_outcome = Resolved json_result | Thrown

text \<open>
  What a callback holds of the render that created it: \<open>sendMessage\<close> and the handlers
  of a recognition session read \<open>conversation\<close>, \<open>message\<close>, \<open>isLoading\<close> and
  \<open>awaitingFeatureInput\<close> from there, not from the current state.
\<close>

record closure =
  cl_conversation :: "turn list"
  cl_message :: jsstring
  cl_isLoading :: bool
  cl_awaitingFeatureInput :: "feature option"

text \<open>
  The component state (the seven \<open>useState\<close> cells), the two refs, and what the
  collaborators hold: whether the engine is speaking (\<open>synth.speaking\<close>), the utterance
  whose handlers are live (\<open>inflight\<close>), the chunk queue and cursor of the running
  \<open>speakMessage\<close> call, whether a recognition session is running, and the number of
  requests not yet settled. Voice selection, the console and the timers' delays are left
  out; a timer's callback is run where it is set.

  Two more fields record what React keeps. \<open>message\<close> is not among the dependencies of
  \<open>sendMessage\<close> (\<open>isLoading\<close>, \<open>awaitingFeatureInput\<close>, \<open>conversation\<close>) nor of
  the effect that installs the recognition handlers (\<open>conversation\<close>, \<open>sendMessage\<close>),
  so both hold the message of the last render in which one of these three changed:
  \<open>captured_message\<close>. \<open>session\<close> is what the handlers of the recognition session
  started last hold: the values of the render before the click.
\<close>

record app_state =
  conversation :: "turn list"
  message :: jsstring
  isListening :: bool
  isSpeaking :: bool
  isLoading :: bool
  error :: jsstring
  awaitingFeatureInput :: "feature option"
  recognitionRef :: bool
  synthRef :: bool
  synth_speaking :: bool
  inflight :: "jsstring option"
  utt_chunks :: "jsstring list"
  currentChunkIndex :: nat
  rec_active :: bool
  pending_fetches :: nat
  effects :: "effect list"
  captured_message :: jsstring
  session :: closure

section \<open>Fixed texts\<close>

definition initialPrompt :: jsstring where
  "initialPrompt = js ''You are an AI virtual teacher focused on helping users learn and practice a British BBC accent. Your responses should be clear, concise, and use formal British English vocabulary and phrasing. When appropriate, offer specific advice on pronunciation, intonation, or common British English nuances based on the user's input. Encourage polite, clear conversation. Start by introducing yourself and asking how you can assist the user in their journey to master the British accent.''"

definition greeting :: turn where
  "greeting = \<lparr>role = Model, text = js ''Hello! I am your AI British accent teacher. How may I assist you today in mastering the nuances of British English?''\<rparr>"

definition listening_text :: jsstring where
  "listening_text = js ''Listening...''"

text \<open>The sparkles character U+2728 that opens every feature marker.\<close>

definition sparkles :: jsstring where
  "sparkles = [0x2728]"

definition vocab_marker :: turn where
  "vocab_marker = \<lparr>role = User, text = sparkles @ js '' I'd like some British vocabulary/idioms.''\<rparr>"

definition vocab_promptText :: jsstring where
  "vocab_promptText = js ''Excellent! Please tell me, what topic would you like vocabulary or idioms for? For example, you could say \"food,\" \"travel,\" or \"everyday life.\"''"

definition rephrase_marker :: turn where
  "rephrase_marker = \<lparr>role = User, text = sparkles @ js '' I'd like a sentence rephrased in British English.''\<rparr>"

definition rephrase_promptText :: jsstring where
  "rephrase_promptText = js ''Certainly. Please provide the sentence you wish to rephrase. I will endeavour to make it sound more quintessentially British.''"

definition roleplay_marker :: turn where
  "roleplay_marker = \<lparr>role = User, text = sparkles @ js '' Starting a new role-play scenario...''\<rparr>"

definition roleplay_prompt :: jsstring where
  "roleplay_prompt = js ''As a British BBC accent teacher, please initiate a short, engaging role-play scenario for the user to practice their British English. Suggest a setting (e.g., a caf'' @ [0xE9] @ js '', a train station, a British garden party) and start the conversation. Keep your initial prompt for the role-play short and set the scene clearly.''"

definition tips_marker :: "jsstring \<Rightarrow> turn" where
  "tips_marker t = \<lparr>role = User, text = sparkles @ js '' Requested pronunciation tips for: \"'' @ t @ js ''\"''\<rparr>"

definition tips_prompt :: "jsstring \<Rightarrow> jsstring" where
  "tips_prompt t = js ''The user just said: \"'' @ t @ js ''\". As a British BBC accent teacher, please provide specific, helpful pronunciation tips for improving the British English sound of that sentence. Focus on key words or common phonetic differences. Keep it concise and practical.''"

definition vocab_prompt :: "jsstring \<Rightarrow> jsstring" where
  "vocab_prompt t = js ''The user is asking for British English vocabulary and idioms related to the topic: \"'' @ t @ js ''\". As a British BBC accent teacher, please provide a list of 5-7 relevant words or idioms with brief explanations/contexts.''"

definition rephrase_prompt :: "jsstring \<Rightarrow> jsstring" where
  "rephrase_prompt t = js ''The user wants to rephrase the sentence: \"'' @ t @ js ''\". As a British BBC accent teacher, please rephrase this sentence to sound more natural and idiomatic in British English. Offer one or two alternative phrasings.''"

definition vocab_ack :: turn where
  "vocab_ack = \<lparr>role = Model, text = js ''Thank you. Please wait a moment while I compile some suggestions for you.''\<rparr>"

definition rephrase_ack :: turn where
  "rephrase_ack = \<lparr>role = Model, text = js ''Understood. Let me consider how to best rephrase that for a British context.''\<rparr>"

definition fallback_apology :: jsstring where
  "fallback_apology = js ''I apologize, I couldn't generate a response at this moment. Please try again.''"

definition unknown_api_error :: jsstring where
  "unknown_api_error = js ''An unknown API error occurred.''"

definition connection_apology :: turn where
  "connection_apology = \<lparr>role = Model, text = js ''I'm having trouble connecting right now. Please try again later.''\<rparr>"

definition err_synth_unavailable :: jsstring where
  "err_synth_unavailable = js ''Speech synthesis not available. Please try refreshing or using a supported browser.''"

definition err_synth :: "jsstring \<Rightarrow> jsstring" where
  "err_synth e = js ''Speech synthesis error: '' @ e @ js ''. Please try again.''"

definition err_empty_message :: jsstring where
  "err_empty_message = js ''Please enter or speak a message to send.''"

definition err_start_failed :: jsstring where
  "err_start_failed = js ''Failed to start speech recognition. Please check microphone permissions and try again.''"

definition err_recognition_unavailable :: jsstring where
  "err_recognition_unavailable = js ''Speech recognition is not available or already active.''"

definition err_no_speech :: jsstring where
  "err_no_speech = js ''No speech was recognized. Please try speaking clearly.''"

definition err_recognition :: "jsstring \<Rightarrow> jsstring" where
  "err_recognition e = js ''Speech recognition error: '' @ e @ js ''. Please ensure microphone access is granted.''"

definition err_unsupported :: jsstring where
  "err_unsupported = js ''Web Speech API is not supported in this browser. Please use Chrome or Edge for voice input.''"

definition err_network :: jsstring where
  "err_network = js ''Failed to get response from AI. Please check your network connection.''"

definition err_no_user_message :: jsstring where
  "err_no_user_message = js ''Please speak or type a message first to get pronunciation tips.''"

text \<open>
  The marker Turns: the Turns the component itself puts into the log for the user
  interface, namely the listening placeholder, the four feature markers (the tips marker
  with any quoted text) and the two acknowledgements.
\<close>

definition tips_open :: jsstring where
  "tips_open = sparkles @ js '' Requested pronunciation tips for: \"''"

definition is_tips_marker :: "turn \<Rightarrow> bool" where
  "is_tips_marker t \<longleftrightarrow>
     role t = User \<and> startsWith (text t) tips_open
     \<and> length tips_open < length (text t) \<and> last (text t) = 0x22"

definition is_marker :: "turn \<Rightarrow> bool" where
  "is_marker t \<longleftrightarrow>
     t = \<lparr>role = User, text = listening_text\<rparr> \<or> t = vocab_marker \<or> t = rephrase_marker
     \<or> t = roleplay_marker \<or> is_tips_marker t \<or> t = vocab_ack \<or> t = rephrase_ack"

text \<open>A message a user can type: it starts with the sparkles character.\<close>

definition typed_sparkles :: jsstring where
  "typed_sparkles = sparkles @ js '' hello''"

text \<open>A reply of two chunks: the two feature prompts, one after the other.\<close>

definition long_reply :: jsstring where
  "long_reply = vocab_promptText @ js '' '' @ rephrase_promptText"

section \<open>Speech output\<close>

text \<open>
  The engine side of \<open>synth.cancel()\<close> and \<open>synth.speak(utterance)\<close>: the call is
  logged; a cancelled engine no longer speaks and drops its utterance, a spoken utterance
  becomes the one whose start, end or error signal is awaited.
\<close>

definition synth_cancel :: "app_state \<Rightarrow> app_state" where
  "synth_cancel s =
     s\<lparr>effects := effects s @ [SynthCancel], synth_speaking := False, inflight := None\<rparr>"

definition synth_speak :: "jsstring \<Rightarrow> app_state \<Rightarrow> app_state" where
  "synth_speak u s = s\<lparr>effects := effects s @ [SynthSpeak u], inflight := Some u\<rparr>"

definition stopSpeaking :: "app_state \<Rightarrow> app_state" where
  "stopSpeaking s =
     (if synthRef s \<and> synth_speaking s
      then (synth_cancel s)\<lparr>isSpeaking := False\<rparr>
      else s)"

text \<open>
  \<open>speakNext\<close>: hands the chunk under the cursor to the engine, if there is one. The
  three handlers it installs on the utterance follow.
\<close>

definition speakNext :: "app_state \<Rightarrow> app_state" where
  "speakNext s =
     (if currentChunkIndex s < length (utt_chunks s)
      then synth_speak (utt_chunks s ! currentChunkIndex s) s
      else s)"

definition utterance_onstart :: "app_state \<Rightarrow> app_state" where
  "utterance_onstart s = s\<lparr>isSpeaking := True, error := []\<rparr>"

definition utterance_onend :: "app_state \<Rightarrow> app_state" where
  "utterance_onend s =
     (let s1 = s\<lparr>currentChunkIndex := currentChunkIndex s + 1\<rparr> in
      if currentChunkIndex s1 < length (utt_chunks s1)
      then speakNext s1
      else s1\<lparr>isSpeaking := False\<rparr>)"

definition utterance_onerror :: "jsstring \<Rightarrow> app_state \<Rightarrow> app_state" where
  "utterance_onerror e s = s\<lparr>error := err_synth e, isSpeaking := False\<rparr>"

definition speakMessage :: "jsstring \<Rightarrow> app_state \<Rightarrow> app_state" where
  "speakMessage txt s =
     (if \<not> synthRef s then s\<lparr>error := err_synth_unavailable\<rparr>
      else
        let s1 = stopSpeaking s;
            chunks = chunk txt maxUtteranceLength
        in if length chunks = 0 then s1\<lparr>isSpeaking := False\<rparr>
           else speakNext (s1\<lparr>utt_chunks := chunks, currentChunkIndex := 0\<rparr>))"

text \<open>
  The synthesis engine signals start, end or error only for the utterance it holds, and
  after end or error it holds none until the next \<open>synth.speak\<close>.
\<close>

datatype synth_signal = SigStart | SigEnd | SigError jsstring

definition synth_deliver :: "synth_signal \<Rightarrow> app_state \<Rightarrow> app_state" where
  "synth_deliver sig s =
     (case inflight s of
        None \<Rightarrow> s
      | Some u \<Rightarrow>
          (case sig of
             SigStart \<Rightarrow> utterance_onstart (s\<lparr>synth_speaking := True\<rparr>)
           | SigEnd \<Rightarrow> utterance_onend (s\<lparr>synth_speaking := False, inflight := None\<rparr>)
           | SigError e \<Rightarrow> utterance_onerror e (s\<lparr>synth_speaking := False, inflight := None\<rparr>)))"

fun synth_deliver_all :: "synth_signal list \<Rightarrow> app_state \<Rightarrow> app_state" where
  "synth_deliver_all [] s = s"
| "synth_deliver_all (sig # sigs) s = synth_deliver_all sigs (synth_deliver sig s)"

section \<open>Requests to the language model\<close>

text \<open>
  \<open>filteredConversation\<close> and \<open>chatHistory\<close> of \<open>sendPromptToGemini\<close>. The role
  mapping \<open>msg.role === 'user' ? 'user' : 'model'\<close> is the identity on \<open>role\<close>.
\<close>

definition filteredConversation :: "turn list \<Rightarrow> turn list" where
  "filteredConversation conv =
     filter (\<lambda>msg. text msg \<noteq> listening_text
                  \<and> \<not> startsWith (text msg) sparkles
                  \<and> text msg \<noteq> text vocab_ack
                  \<and> text msg \<noteq> text rephrase_ack) conv"

definition chatHistory :: "turn list \<Rightarrow> jsstring \<Rightarrow> content list" where
  "chatHistory conv promptContent =
     [\<lparr>c_role = User, c_text = initialPrompt\<rparr>]
     @ map (\<lambda>msg. \<lparr>c_role = (if role msg = User then User else Model), c_text = text msg\<rparr>)
           (filteredConversation conv)
     @ [\<lparr>c_role = User, c_text = promptContent\<rparr>]"

text \<open>
  \<open>sendPromptToGemini\<close> up to its \<open>await fetch\<close>. The conversation it filters
  (\<open>conv\<close>) is the one of the render that created the callback, not the one the
  pending \<open>setConversation\<close> updates will produce.
\<close>

definition sendPromptToGemini :: "turn list \<Rightarrow> jsstring \<Rightarrow> app_state \<Rightarrow> app_state" where
  "sendPromptToGemini conv promptContent s =
     s\<lparr>isLoading := True,
       effects := effects s @ [Fetch (chatHistory conv promptContent)],
       pending_fetches := pending_fetches s + 1\<rparr>"

text \<open>The text chosen from a parsed body: first part of the first candidate, else the
  error message, else the fixed apology.\<close>

definition usable_candidate :: "json_result \<Rightarrow> jsstring option" where
  "usable_candidate result =
     (case candidates result of
        Some (c # cs) \<Rightarrow>
          (case content c of
             Some ct \<Rightarrow> (case parts ct of Some (p # ps) \<Rightarrow> Some p | _ \<Rightarrow> None)
           | None \<Rightarrow> None)
      | _ \<Rightarrow> None)"

definition aiResponseText :: "json_result \<Rightarrow> jsstring" where
  "aiResponseText result =
     (case usable_candidate result of
        Some p \<Rightarrow> p
      | None \<Rightarrow>
          (case result_error result of
             Some e \<Rightarrow>
               js ''Error: '' @
               (case err_message e of
                  Some m \<Rightarrow> if m \<noteq> [] then m else unknown_api_error
                | None \<Rightarrow> unknown_api_error)
           | None \<Rightarrow> fallback_apology))"

text \<open>\<open>sendPromptToGemini\<close> from the settled request on: \<open>try\<close>, \<open>catch\<close>, \<open>finally\<close>.\<close>

definition sendPromptToGemini_settled :: "fetch_outcome \<Rightarrow> app_state \<Rightarrow> app_state" where
  "sendPromptToGemini_settled outcome s =
     (case outcome of
        Resolved result \<Rightarrow>
          (let aiMessage = \<lparr>role = Model, text = aiResponseText result\<rparr>;
               s1 = s\<lparr>conversation := conversation s @ [aiMessage]\<rparr>;
               s2 = speakMessage (aiResponseText result) s1
           in s2\<lparr>isLoading := False\<rparr>)
      | Thrown \<Rightarrow>
          s\<lparr>error := err_network,
            conversation := conversation s @ [connection_apology],
            isLoading := False\<rparr>)"

section \<open>Triggers\<close>

text \<open>
  \<open>sendMessage\<close>. The callback reads \<open>isLoading\<close>, \<open>message\<close> and
  \<open>awaitingFeatureInput\<close> from what it holds (\<open>r\<close>) and applies its updates to the
  current state (\<open>s\<close>).
\<close>

definition sendMessage_in :: "closure \<Rightarrow> jsstring \<Rightarrow> app_state \<Rightarrow> app_state" where
  "sendMessage_in r textToSend s =
     (let s1 = s\<lparr>conversation := filter (\<lambda>msg. text msg \<noteq> listening_text) (conversation s)\<rparr>;
          userMessageContent = trim textToSend
      in if userMessageContent = [] \<or> cl_isLoading r
         then (if textToSend = cl_message r \<and> userMessageContent = []
               then s1\<lparr>error := err_empty_message\<rparr>
               else s1)
         else
           let s2 = s1\<lparr>error := [],
                      conversation := conversation s1 @ [\<lparr>role = User, text = userMessageContent\<rparr>],
                      message := []\<rparr>;
               s3 = stopSpeaking s2
           in (case cl_awaitingFeatureInput r of
                 Some Vocab \<Rightarrow>
                   sendPromptToGemini (cl_conversation r) (vocab_prompt userMessageContent)
                     (s3\<lparr>awaitingFeatureInput := None,
                         conversation := conversation s3 @ [vocab_ack]\<rparr>)
               | Some Rephrase \<Rightarrow>
                   sendPromptToGemini (cl_conversation r) (rephrase_prompt userMessageContent)
                     (s3\<lparr>awaitingFeatureInput := None,
                         conversation := conversation s3 @ [rephrase_ack]\<rparr>)
               | None \<Rightarrow> sendPromptToGemini (cl_conversation r) userMessageContent s3))"

text \<open>
  What the callbacks of the current render hold: the current \<open>conversation\<close>,
  \<open>isLoading\<close> and \<open>awaitingFeatureInput\<close>, which are dependencies, and the captured
  message, which can be older than the input field. \<open>sendMessage\<close> as the input field
  and the Send button call it is the callback of the current render.
\<close>

definition closure_of :: "app_state \<Rightarrow> closure" where
  "closure_of s =
     \<lparr>cl_conversation = conversation s, cl_message = captured_message s,
      cl_isLoading = isLoading s, cl_awaitingFeatureInput = awaitingFeatureInput s\<rparr>"

definition sendMessage :: "jsstring \<Rightarrow> app_state \<Rightarrow> app_state" where
  "sendMessage textToSend s = sendMessage_in (closure_of s) textToSend s"

text \<open>\<open>startListening\<close>; \<open>throws\<close> says whether \<open>recognitionRef.current.start()\<close>
  raises. The session it starts runs with the handlers installed on the recognition
  object, which hold the values of the render before the click.\<close>

definition startListening :: "bool \<Rightarrow> app_state \<Rightarrow> app_state" where
  "startListening throws s =
     (let s0 = stopSpeaking s in
      if recognitionRef s \<and> \<not> isListening s
      then
        let s1 = s0\<lparr>error := [], message := [],
                   conversation := conversation s0 @ [\<lparr>role = User, text = listening_text\<rparr>],
                   effects := effects s0 @ [RecognitionStart]\<rparr>
        in if throws
           then s1\<lparr>error := err_start_failed, isListening := False,
                   conversation := filter (\<lambda>msg. text msg \<noteq> listening_text) (conversation s1)\<rparr>
           else s1\<lparr>isListening := True, rec_active := True, session := closure_of s\<rparr>
      else s0\<lparr>error := err_recognition_unavailable\<rparr>)"

definition stopListening :: "app_state \<Rightarrow> app_state" where
  "stopListening s =
     (if recognitionRef s \<and> isListening s
      then s\<lparr>effects := effects s @ [RecognitionStop], isListening := False\<rparr>
      else s)"

text \<open>
  The three handlers of the recognition session. \<open>onresult\<close> calls the \<open>sendMessage\<close>
  the session holds; \<open>onend\<close> tests the \<open>message\<close> and the \<open>conversation\<close> the session
  holds.
\<close>

definition recognition_onresult :: "jsstring \<Rightarrow> app_state \<Rightarrow> app_state" where
  "recognition_onresult speechResult s =
     sendMessage_in (session s) speechResult (s\<lparr>message := speechResult\<rparr>)"

definition recognition_onend :: "app_state \<Rightarrow> app_state" where
  "recognition_onend s =
     (let s1 = s\<lparr>isListening := False\<rparr> in
      if trim (cl_message (session s)) = []
         \<and> (\<exists>msg \<in> set (cl_conversation (session s)). text msg = listening_text)
      then s1\<lparr>error := err_no_speech,
              conversation := filter (\<lambda>msg. text msg \<noteq> listening_text) (conversation s1)\<rparr>
      else s1)"

definition recognition_onerror :: "jsstring \<Rightarrow> app_state \<Rightarrow> app_state" where
  "recognition_onerror e s =
     s\<lparr>error := err_recognition e, isListening := False,
       conversation := filter (\<lambda>msg. text msg \<noteq> listening_text) (conversation s)\<rparr>"

text \<open>The guard shared by the four feature triggers:
  \<open>isLoading || isListening || isSpeaking || awaitingFeatureInput\<close>.\<close>

definition busy :: "app_state \<Rightarrow> bool" where
  "busy s \<longleftrightarrow> isLoading s \<or> isListening s \<or> isSpeaking s \<or> awaitingFeatureInput s \<noteq> None"

text \<open>The test of \<open>getPronunciationTips\<close> for an actual user message, and its search
  \<open>conversation.slice().reverse().find(...)\<close>.\<close>

definition isActualUserMessage :: "turn \<Rightarrow> bool" where
  "isActualUserMessage msg \<longleftrightarrow>
     role msg = User \<and> text msg \<noteq> listening_text \<and> \<not> startsWith (text msg) sparkles"

definition lastUserMessage :: "turn list \<Rightarrow> turn option" where
  "lastUserMessage conv = find isActualUserMessage (rev conv)"

definition getPronunciationTips :: "app_state \<Rightarrow> app_state" where
  "getPronunciationTips s =
     (let s0 = s\<lparr>error := []\<rparr> in
      if busy s then s0
      else
        (case lastUserMessage (conversation s) of
           None \<Rightarrow> s0\<lparr>error := err_no_user_message\<rparr>
         | Some m \<Rightarrow>
             sendPromptToGemini (conversation s) (tips_prompt (text m))
               (s0\<lparr>conversation := conversation s0 @ [tips_marker (text m)]\<rparr>)))"

definition getBritishVocabulary :: "app_state \<Rightarrow> app_state" where
  "getBritishVocabulary s =
     (let s0 = s\<lparr>error := []\<rparr> in
      if busy s then s0
      else
        let s1 = s0\<lparr>conversation := conversation s0 @ [vocab_marker]\<rparr>;
            s2 = s1\<lparr>conversation := conversation s1 @ [\<lparr>role = Model, text = vocab_promptText\<rparr>]\<rparr>;
            s3 = speakMessage vocab_promptText s2
        in s3\<lparr>awaitingFeatureInput := Some Vocab\<rparr>)"

definition rephraseSentence :: "app_state \<Rightarrow> app_state" where
  "rephraseSentence s =
     (let s0 = s\<lparr>error := []\<rparr> in
      if busy s then s0
      else
        let s1 = s0\<lparr>conversation := conversation s0 @ [rephrase_marker]\<rparr>;
            s2 = s1\<lparr>conversation := conversation s1 @ [\<lparr>role = Model, text = rephrase_promptText\<rparr>]\<rparr>;
            s3 = speakMessage rephrase_promptText s2
        in s3\<lparr>awaitingFeatureInput := Some Rephrase\<rparr>)"

definition startRolePlay :: "app_state \<Rightarrow> app_state" where
  "startRolePlay s =
     (let s0 = s\<lparr>error := []\<rparr> in
      if busy s then s0
      else sendPromptToGemini (conversation s) roleplay_prompt
             (s0\<lparr>conversation := conversation s0 @ [roleplay_marker]\<rparr>))"

definition clearConversation :: "app_state \<Rightarrow> app_state" where
  "clearConversation s =
     (let s1 = s\<lparr>conversation := [greeting], error := [], awaitingFeatureInput := None\<rparr>;
          s2 = stopSpeaking s1;
          s3 = stopListening s2
      in s3\<lparr>message := []\<rparr>)"

section \<open>The component as a transition system\<close>

text \<open>
  The state after mounting: the seeded greeting, no flag set, an empty input field;
  \<open>supported\<close> says whether the browser has a recognition engine.
\<close>

definition mounted :: "bool \<Rightarrow> app_state" where
  "mounted supported =
     \<lparr>conversation = [greeting], message = [], isListening = False, isSpeaking = False,
      isLoading = False, error = (if supported then [] else err_unsupported),
      awaitingFeatureInput = None, recognitionRef = supported, synthRef = True,
      synth_speaking = False, inflight = None, utt_chunks = [], currentChunkIndex = 0,
      rec_active = False, pending_fetches = 0, effects = [],
      captured_message = [],
      session = \<lparr>cl_conversation = [greeting], cl_message = [], cl_isLoading = False,
                 cl_awaitingFeatureInput = None\<rparr>\<rparr>"

text \<open>
  The triggers of the user interface and the signals of the collaborators. A recognition
  signal arrives only while a session runs, a settled request only while one is pending,
  a synthesis signal only for the utterance in flight. \<open>SetMessage\<close> is the
  \<open>onChange\<close> of the input field.
\<close>

datatype event =
    SetMessage jsstring
  | SendMessage jsstring
  | StartListening bool
  | StopSpeaking
  | GetPronunciationTips
  | GetBritishVocabulary
  | RephraseSentence
  | StartRolePlay
  | ClearConversation
  | OnResult jsstring
  | OnEnd
  | OnError jsstring
  | Utterance synth_signal
  | Settled fetch_outcome

fun handle :: "event \<Rightarrow> app_state \<Rightarrow> app_state" where
  "handle (SetMessage t) s = s\<lparr>message := t\<rparr>"
| "handle (SendMessage t) s = sendMessage t s"
| "handle (StartListening throws) s = startListening throws s"
| "handle StopSpeaking s = stopSpeaking s"
| "handle GetPronunciationTips s = getPronunciationTips s"
| "handle GetBritishVocabulary s = getBritishVocabulary s"
| "handle RephraseSentence s = rephraseSentence s"
| "handle StartRolePlay s = startRolePlay s"
| "handle ClearConversation s = clearConversation s"
| "handle (OnResult t) s = (if rec_active s then recognition_onresult t s else s)"
| "handle OnEnd s = (if rec_active s then recognition_onend (s\<lparr>rec_active := False\<rparr>) else s)"
| "handle (OnError e) s = (if rec_active s then recognition_onerror e s else s)"
| "handle (Utterance sig) s = synth_deliver sig s"
| "handle (Settled outcome) s =
     (if 0 < pending_fetches s
      then sendPromptToGemini_settled outcome (s\<lparr>pending_fetches := pending_fetches s - 1\<rparr>)
      else s)"

text \<open>
  Whether the handler of an event calls \<open>setConversation\<close>. Every such call stores a new
  array (a \<open>filter\<close>, a spread or a literal), so the render that follows creates
  \<open>sendMessage\<close> and the recognition handlers anew, with the message of that render.
  \<open>isLoading\<close> and \<open>awaitingFeatureInput\<close> change only in handlers that also call
  \<open>setConversation\<close>.
\<close>

fun setsConversation :: "event \<Rightarrow> app_state \<Rightarrow> bool" where
  "setsConversation (SetMessage t) s = False"
| "setsConversation (SendMessage t) s = True"
| "setsConversation (StartListening throws) s = (recognitionRef s \<and> \<not> isListening s)"
| "setsConversation StopSpeaking s = False"
| "setsConversation GetPronunciationTips s =
     (\<not> busy s \<and> lastUserMessage (conversation s) \<noteq> None)"
| "setsConversation GetBritishVocabulary s = (\<not> busy s)"
| "setsConversation RephraseSentence s = (\<not> busy s)"
| "setsConversation StartRolePlay s = (\<not> busy s)"
| "setsConversation ClearConversation s = True"
| "setsConversation (OnResult t) s = rec_active s"
| "setsConversation OnEnd s =
     (rec_active s \<and> trim (cl_message (session s)) = []
      \<and> (\<exists>msg \<in> set (cl_conversation (session s)). text msg = listening_text))"
| "setsConversation (OnError e) s = rec_active s"
| "setsConversation (Utterance sig) s = False"
| "setsConversation (Settled outcome) s = (0 < pending_fetches s)"

definition step :: "event \<Rightarrow> app_state \<Rightarrow> app_state" where
  "step e s =
     (let s' = handle e s in
      if setsConversation e s then s'\<lparr>captured_message := message s'\<rparr> else s')"

fun run :: "event list \<Rightarrow> app_state \<Rightarrow> app_state" where
  "run [] s = s"
| "run (e # es) s = run es (step e s)"

section \<open>Properties of the chunker\<close>

lemma isWhiteSpace_sp [simp]: "isWhiteSpace 0x20"
  by (simp add: isWhiteSpace_def)
lemma isWhiteSpace_lf [simp]: "isWhiteSpace 0x0A"
  by (simp add: isWhiteSpace_def)

lemma dropWhile_hd_id: "s = [] \<or> \<not> P (hd s) \<Longrightarrow> dropWhile P s = s"
  by (cases s) auto

lemma trimmed_trim_id: "trimmed s \<Longrightarrow> trim s = s"
  by (simp add: trimmed_def trim_def dropWhile_hd_id hd_rev)

lemma trim_Nil [simp]: "trim [] = []"
  by (simp add: trim_def)

lemma dropWhile_all: "(\<forall>x\<in>set (dropWhile P s). P x) \<longleftrightarrow> (\<forall>x\<in>set s. P x)"
  by (induction s) auto

lemma trim_eq_Nil_iff: "trim s = [] \<longleftrightarrow> (\<forall>c\<in>set s. isWhiteSpace c)"
  by (simp add: trim_def dropWhile_eq_Nil_conv dropWhile_all)

lemma trim_trimmed: "trim s \<noteq> [] \<Longrightarrow> trimmed (trim s)"
proof -
  assume ne: "trim s \<noteq> []"
  define t where "t = dropWhile isWhiteSpace s"
  define u where "u = dropWhile isWhiteSpace (rev t)"
  have tu: "trim s = rev u" by (simp add: trim_def t_def u_def)
  with ne have une: "u \<noteq> []" by simp
  then have hdu: "\<not> isWhiteSpace (hd u)"
    unfolding u_def by (rule hd_dropWhile)
  from une have tne: "t \<noteq> []" unfolding u_def by auto
  then have hdt: "\<not> isWhiteSpace (hd t)"
    unfolding t_def by (rule hd_dropWhile)
  have "rev t = takeWhile isWhiteSpace (rev t) @ u"
    by (simp add: u_def)
  then have "t = rev u @ rev (takeWhile isWhiteSpace (rev t))"
    by (metis rev_append rev_rev_ident)
  with une have "hd t = hd (rev u)"
    by (metis hd_append2 rev_is_Nil_conv)
  with hdt hdu une show ?thesis
    by (simp add: trimmed_def tu last_rev)
qed

lemma trim_idem [simp]: "trim (trim s) = trim s"
  by (cases "trim s = []") (simp_all add: trimmed_trim_id trim_trimmed)

lemma trimmed_join:
  "trimmed a \<Longrightarrow> trimmed b \<Longrightarrow> trimmed (a @ c # b)"
  by (auto simp: trimmed_def)

lemma trim_ws_Cons: "isWhiteSpace c \<Longrightarrow> trim (c # s) = trim s"
  by (simp add: trim_def)

lemma split_ws_ne [simp]: "split_ws s \<noteq> []"
  by (induction s) (auto split: list.splits)

lemma split_ws_append_ws:
  "isWhiteSpace c \<Longrightarrow> split_ws (a @ c # b) = split_ws a @ split_ws b"
proof (induction a)
  case Nil
  then show ?case by simp
next
  case (Cons x a)
  then show ?case by (cases "split_ws a") auto
qed

lemma words_of_Nil [simp]: "words_of [] = []"
  by (simp add: words_of_def)

lemma words_of_append_ws:
  "isWhiteSpace c \<Longrightarrow> words_of (a @ c # b) = words_of a @ words_of b"
  by (simp add: words_of_def split_ws_append_ws)

lemma words_of_ws_Cons: "isWhiteSpace c \<Longrightarrow> words_of (c # b) = words_of b"
  using words_of_append_ws [of c "[]" b] by simp

lemma words_of_snoc_ws: "isWhiteSpace c \<Longrightarrow> words_of (a @ [c]) = words_of a"
  using words_of_append_ws [of c a "[]"] by simp

lemma words_of_dropWhile:
  "(\<And>x. P x \<Longrightarrow> isWhiteSpace x) \<Longrightarrow> words_of (dropWhile P s) = words_of s"
  by (induction s) (auto simp: words_of_ws_Cons)

lemma words_of_dropWhile_ws: "words_of (dropWhile isWhiteSpace s) = words_of s"
  by (rule words_of_dropWhile) simp

lemma words_of_dropWhile_lf: "words_of (dropWhile (\<lambda>x. x = 0x0A) s) = words_of s"
  by (rule words_of_dropWhile) simp

lemma words_of_rev_dropWhile:
  "(\<And>x. P x \<Longrightarrow> isWhiteSpace x) \<Longrightarrow> words_of (rev (dropWhile P s)) = words_of (rev s)"
  by (induction s) (auto simp: words_of_snoc_ws)

lemma words_of_trim [simp]: "words_of (trim s) = words_of s"
  by (simp add: trim_def words_of_rev_dropWhile words_of_dropWhile_ws)

lemma words_of_all_ws: "\<forall>c\<in>set s. isWhiteSpace c \<Longrightarrow> words_of s = []"
  by (induction s) (auto simp: words_of_ws_Cons)

lemma words_of_trim_Nil: "trim s = [] \<Longrightarrow> words_of s = []"
  by (simp add: trim_eq_Nil_iff words_of_all_ws)

lemma words_of_split_go:
  "concat (map words_of (split_go prev cur s)) = words_of (cur @ s)"
proof (induction prev cur s rule: split_go.induct)
  case (1 prev cur)
  then show ?case by simp
next
  case (2 prev cur c cs)
  then show ?case
    by (auto simp: words_of_append_ws words_of_dropWhile_ws words_of_dropWhile_lf
             simp del: last.simps)
qed

lemma words_of_segments: "concat (map words_of (segments src)) = words_of src"
proof -
  have "concat (map words_of (filter (\<lambda>s. length (trim s) > 0) ps)) = concat (map words_of ps)" for ps
    by (induction ps) (auto simp: words_of_trim_Nil)
  then show ?thesis
    by (simp add: segments_def split_sentences_def words_of_split_go)
qed

lemma words_of_chunk_loop:
  "concat (map words_of (chunk_loop m segs chunks cur)) =
     concat (map words_of chunks) @ words_of cur @ concat (map words_of segs)"
proof (induction segs arbitrary: chunks cur)
  case Nil
  then show ?case by (auto simp: words_of_trim_Nil)
next
  case (Cons s segs)
  have a: "words_of (cur @ 0x20 # trim s) = words_of cur @ words_of s"
    by (simp add: words_of_append_ws)
  have b: "trim s = [] \<Longrightarrow> words_of s = []"
    by (rule words_of_trim_Nil)
  have c: "trim cur = [] \<Longrightarrow> words_of cur = []"
    by (rule words_of_trim_Nil)
  show ?case
    by (simp add: Cons.IH Let_def a b c)
qed

lemma words_of_join_sp: "words_of (join_sp cs) = concat (map words_of cs)"
  by (induction cs rule: join_sp.induct) (simp_all add: words_of_append_ws)

lemma trim_sp_join:
  "(cur = [] \<or> trimmed cur) \<Longrightarrow> trimmed seg \<Longrightarrow>
   trim (cur @ 0x20 # seg) = cur @ (if cur \<noteq> [] then [0x20] else []) @ seg"
  by (auto simp: trim_ws_Cons trimmed_trim_id trimmed_join)

lemma chunk_loop_ok:
  "\<forall>c\<in>set chunks. chunk_ok m S c \<Longrightarrow> cur = [] \<or> chunk_ok m S cur \<Longrightarrow>
   \<forall>s\<in>set segs. trim s \<noteq> [] \<longrightarrow> trim s \<in> S \<Longrightarrow>
   \<forall>c\<in>set (chunk_loop m segs chunks cur). chunk_ok m S c"
proof (induction segs arbitrary: chunks cur)
  case Nil
  then show ?case by (auto simp: chunk_ok_def trimmed_trim_id)
next
  case (Cons s segs)
  show ?case
  proof (cases "trim s = []")
    case True
    from Cons.prems(3) have "\<forall>s\<in>set segs. trim s \<noteq> [] \<longrightarrow> trim s \<in> S" by simp
    from Cons.IH [OF Cons.prems(1,2) this] True show ?thesis by simp
  next
    case False
    then have ts: "trimmed (trim s)" by (rule trim_trimmed)
    from False Cons.prems(3) have inS: "trim s \<in> S" by simp
    from Cons.prems(2) have cur: "cur = [] \<or> trimmed cur" by (auto simp: chunk_ok_def)
    have join: "trim (cur @ 0x20 # trim s) = cur @ (if cur \<noteq> [] then [0x20] else []) @ trim s"
      using cur ts by (rule trim_sp_join)
    have tj: "trimmed (cur @ (if cur \<noteq> [] then [0x20] else []) @ trim s)"
      using cur ts by (auto simp: trimmed_join)
    have rest: "\<forall>s\<in>set segs. trim s \<noteq> [] \<longrightarrow> trim s \<in> S"
      using Cons.prems(3) by simp
    show ?thesis
    proof (cases "length (trim (cur @ 0x20 # trim s)) \<le> m")
      case fit: True
      have "cur @ (if cur \<noteq> [] then [0x20] else []) @ trim s = [] \<or>
            chunk_ok m S (cur @ (if cur \<noteq> [] then [0x20] else []) @ trim s)"
        using fit tj unfolding join chunk_ok_def by simp
      from Cons.IH [OF Cons.prems(1) this rest] fit False show ?thesis
        by (simp add: Let_def)
    next
      case over: False
      have c1: "\<forall>c\<in>set (if trim cur \<noteq> [] then chunks @ [trim cur] else chunks). chunk_ok m S c"
        using Cons.prems(1,2) by (auto simp: chunk_ok_def trimmed_trim_id)
      have c2: "trim s = [] \<or> chunk_ok m S (trim s)"
        using ts inS by (simp add: chunk_ok_def)
      from Cons.IH [OF c1 c2 rest] over False show ?thesis
        by (simp add: Let_def)
    qed
  qed
qed

lemma chunk_loop_keeps: "set chunks \<subseteq> set (chunk_loop m segs chunks cur)"
proof (induction segs arbitrary: chunks cur)
  case Nil
  then show ?case by auto
next
  case (Cons s segs)
  show ?case
  proof (cases "trim s = []")
    case True
    with Cons.IH [of chunks cur] show ?thesis by simp
  next
    case False
    show ?thesis
    proof (cases "length (trim (cur @ 0x20 # trim s)) \<le> m")
      case fit: True
      with False Cons.IH [of chunks "cur @ (if cur \<noteq> [] then [0x20] else []) @ trim s"]
      show ?thesis by (simp add: Let_def)
    next
      case over: False
      define chunks' where "chunks' = (if trim cur \<noteq> [] then chunks @ [trim cur] else chunks)"
      have "set chunks \<subseteq> set chunks'" by (auto simp: chunks'_def)
      also have "\<dots> \<subseteq> set (chunk_loop m segs chunks' (trim s))" by (rule Cons.IH)
      finally show ?thesis using over False by (simp add: Let_def chunks'_def)
    qed
  qed
qed

lemma chunk_loop_long_cur:
  "trimmed cur \<Longrightarrow> m < length cur \<Longrightarrow> cur \<in> set (chunk_loop m segs chunks cur)"
proof (induction segs arbitrary: chunks)
  case Nil
  then show ?case by (auto simp: trimmed_trim_id trimmed_def)
next
  case (Cons s segs)
  show ?case
  proof (cases "trim s = []")
    case True
    from Cons.IH [OF Cons.prems] True show ?thesis by simp
  next
    case False
    then have ts: "trimmed (trim s)" by (rule trim_trimmed)
    have "trim (cur @ 0x20 # trim s) = cur @ 0x20 # trim s"
      using Cons.prems(1) ts by (simp add: trimmed_trim_id trimmed_join)
    with Cons.prems(2) have over: "\<not> length (trim (cur @ 0x20 # trim s)) \<le> m" by simp
    have "cur \<in> set (chunks @ [cur])" by simp
    with chunk_loop_keeps [of "chunks @ [cur]" m segs "trim s"]
    have "cur \<in> set (chunk_loop m segs (chunks @ [cur]) (trim s))" by blast
    moreover from Cons.prems(1) have "trim cur = cur" "cur \<noteq> []"
      by (simp_all add: trimmed_trim_id trimmed_def)
    ultimately show ?thesis using over False
      by (simp add: Let_def)
  qed
qed

lemma chunk_loop_long_seg:
  "cur = [] \<or> trimmed cur \<Longrightarrow> seg \<in> set segs \<Longrightarrow> m < length (trim seg) \<Longrightarrow>
   trim seg \<in> set (chunk_loop m segs chunks cur)"
proof (induction segs arbitrary: chunks cur)
  case Nil
  then show ?case by simp
next
  case (Cons s segs)
  show ?case
  proof (cases "trim s = []")
    case True
    with Cons.prems have "seg \<in> set segs" by auto
    from Cons.IH [OF Cons.prems(1) this Cons.prems(3)] True show ?thesis by simp
  next
    case False
    then have ts: "trimmed (trim s)" by (rule trim_trimmed)
    have join: "trim (cur @ 0x20 # trim s) = cur @ (if cur \<noteq> [] then [0x20] else []) @ trim s"
      using Cons.prems(1) ts by (rule trim_sp_join)
    have tj: "trimmed (cur @ (if cur \<noteq> [] then [0x20] else []) @ trim s)"
      using Cons.prems(1) ts by (auto simp: trimmed_join)
    show ?thesis
    proof (cases "seg = s")
      case True
      with Cons.prems(3) have over: "\<not> length (trim (cur @ 0x20 # trim s)) \<le> m"
        unfolding join by simp
      from chunk_loop_long_cur [OF ts] Cons.prems(3) True
      have "trim s \<in> set (chunk_loop m segs (if trim cur \<noteq> [] then chunks @ [trim cur] else chunks) (trim s))"
        by simp
      with over False True show ?thesis by (simp add: Let_def)
    next
      case ne: False
      with Cons.prems(2) have mem: "seg \<in> set segs" by simp
      show ?thesis
      proof (cases "length (trim (cur @ 0x20 # trim s)) \<le> m")
        case fit: True
        from tj have "cur @ (if cur \<noteq> [] then [0x20] else []) @ trim s = [] \<or>
            trimmed (cur @ (if cur \<noteq> [] then [0x20] else []) @ trim s)" ..
        from Cons.IH [OF this mem Cons.prems(3)]
        have "trim seg \<in> set (chunk_loop m segs chunks (cur @ (if cur \<noteq> [] then [0x20] else []) @ trim s))" .
        with fit False show ?thesis by (simp add: Let_def)
      next
        case over: False
        from ts have "trim s = [] \<or> trimmed (trim s)" ..
        from Cons.IH [OF this mem Cons.prems(3)]
        have "trim seg \<in> set (chunk_loop m segs (if trim cur \<noteq> [] then chunks @ [trim cur] else chunks) (trim s))" .
        with over False show ?thesis by (simp add: Let_def)
      qed
    qed
  qed
qed

lemma set_dropWhile_subset: "set (dropWhile P xs) \<subseteq> set xs"
  by (auto dest: set_dropWhileD)

lemma split_go_chars:
  "p \<in> set (split_go prev cur s) \<Longrightarrow> set p \<subseteq> set cur \<union> set s"
proof (induction prev cur s rule: split_go.induct)
  case (1 prev cur)
  then show ?case by simp
next
  case (2 prev cur c cs)
  show ?case
  proof (cases "isTerminal prev \<and> isWhiteSpace c")
    case True
    with 2(4) have "p = cur \<or> p \<in> set (split_go (Some (last (c # takeWhile isWhiteSpace cs))) [] (dropWhile isWhiteSpace cs))"
      by (simp del: last.simps)
    then show ?thesis
    proof
      assume "p = cur" then show ?thesis by auto
    next
      assume "p \<in> set (split_go (Some (last (c # takeWhile isWhiteSpace cs))) [] (dropWhile isWhiteSpace cs))"
      from 2(1) [OF True this] set_dropWhile_subset [of isWhiteSpace cs]
      show ?thesis by auto
    qed
  next
    case False
    show ?thesis
    proof (cases "c = 0x0A")
      case True
      with False 2(4) have "p = cur \<or> p \<in> set (split_go (Some 0x0A) [] (dropWhile (\<lambda>x. x = 0x0A) cs))"
        by auto
      then show ?thesis
      proof
        assume "p = cur" then show ?thesis by auto
      next
        assume "p \<in> set (split_go (Some 0x0A) [] (dropWhile (\<lambda>x. x = 0x0A) cs))"
        from 2(2) [OF False True this] set_dropWhile_subset [of "\<lambda>x. x = 0x0A" cs]
        show ?thesis by auto
      qed
    next
      case ne: False
      with False 2(4) have "p \<in> set (split_go (Some c) (cur @ [c]) cs)" by auto
      from 2(3) [OF False ne this] show ?thesis by auto
    qed
  qed
qed

lemma segments_blank: "\<forall>ch\<in>set src. isWhiteSpace ch \<Longrightarrow> segments src = []"
proof -
  assume ws: "\<forall>ch\<in>set src. isWhiteSpace ch"
  have "trim p = []" if "p \<in> set (split_sentences src)" for p
  proof -
    from that have "p \<in> set (split_go None [] src)"
      by (simp add: split_sentences_def)
    from split_go_chars [OF this] have "set p \<subseteq> set src"
      by simp
    with ws show ?thesis by (auto simp: trim_eq_Nil_iff)
  qed
  then show ?thesis by (simp add: segments_def filter_empty_conv)
qed

subsection \<open>The word-based chunker\<close>

lemma words_of_split_spaces:
  "concat (map words_of (split_spaces cur s)) = words_of (cur @ s)"
proof (induction cur s rule: split_spaces.induct)
  case (1 cur)
  then show ?case by simp
next
  case (2 cur c cs)
  then show ?case
    by (auto simp: words_of_append_ws words_of_dropWhile_ws)
qed

lemma words_of_words_loop:
  "concat (map words_of (words_loop m ws chunks cur)) =
     concat (map words_of chunks) @ words_of cur @ concat (map words_of ws)"
proof (induction ws arbitrary: chunks cur)
  case Nil
  then show ?case by (auto simp: words_of_trim_Nil)
next
  case (Cons w ws)
  have a: "words_of (cur @ 0x20 # w) = words_of cur @ words_of w"
    by (simp add: words_of_append_ws)
  have c: "trim cur = [] \<Longrightarrow> words_of cur = []"
    by (rule words_of_trim_Nil)
  show ?case
    by (simp add: Cons.IH a c)
qed

lemma split_spaces_solid:
  "solid cur \<Longrightarrow> w \<in> set (split_spaces cur s) \<Longrightarrow> solid w"
proof (induction cur s rule: split_spaces.induct)
  case (1 cur)
  then show ?case by simp
next
  case (2 cur c cs)
  show ?case
  proof (cases "isWhiteSpace c")
    case True
    with 2(4) have "w = cur \<or> w \<in> set (split_spaces [] (dropWhile isWhiteSpace cs))" by simp
    then show ?thesis
    proof
      assume "w = cur" with 2(3) show ?thesis by simp
    next
      assume "w \<in> set (split_spaces [] (dropWhile isWhiteSpace cs))"
      with 2(1) [OF True] show ?thesis by (simp add: solid_def)
    qed
  next
    case False
    with 2(4) have "w \<in> set (split_spaces (cur @ [c]) cs)" by simp
    moreover from False 2(3) have "solid (cur @ [c])" by (simp add: solid_def)
    ultimately show ?thesis using 2(2) [OF False] by simp
  qed
qed

lemma solid_trimmed: "solid w \<Longrightarrow> w \<noteq> [] \<Longrightarrow> trimmed w"
  by (simp add: solid_def trimmed_def)

lemma solid_trim: "solid w \<Longrightarrow> trim w = w"
  by (cases "w = []") (simp_all add: solid_trimmed trimmed_trim_id)

lemma dropWhile_append_keep:
  "w \<noteq> [] \<Longrightarrow> \<not> P (hd w) \<Longrightarrow> \<exists>p. dropWhile P (a @ w) = p @ w"
  by (induction a) (auto simp: dropWhile_hd_id)

lemma trim_ends_with:
  assumes "trimmed w"
  shows "\<exists>p. trim (a @ w) = p @ w"
proof -
  from assms have w: "w \<noteq> []" "\<not> isWhiteSpace (hd w)" "\<not> isWhiteSpace (last w)"
    by (simp_all add: trimmed_def)
  from dropWhile_append_keep [where P = isWhiteSpace and w = w and a = a, OF w(1,2)] obtain p where p: "dropWhile isWhiteSpace (a @ w) = p @ w"
    by blast
  from w have "dropWhile isWhiteSpace (rev w @ rev p) = rev w @ rev p"
    by (intro dropWhile_hd_id) (simp add: hd_rev hd_append)
  with p show ?thesis by (simp add: trim_def)
qed

lemma dropWhile_append_all: "\<forall>x\<in>set xs. P x \<Longrightarrow> dropWhile P (xs @ ys) = dropWhile P ys"
  by (induction xs) auto

lemma trim_starts_with:
  assumes "trimmed w"
  shows "\<exists>q. trim (w @ b) = w @ q"
proof -
  from assms have w: "w \<noteq> []" "\<not> isWhiteSpace (hd w)" "\<not> isWhiteSpace (last w)"
    by (simp_all add: trimmed_def)
  then have 1: "dropWhile isWhiteSpace (w @ b) = w @ b"
    by (intro dropWhile_hd_id) (simp add: hd_append)
  from w have "rev w \<noteq> []" "\<not> isWhiteSpace (hd (rev w))" by (simp_all add: hd_rev)
  from dropWhile_append_keep [where P = isWhiteSpace and w = "rev w" and a = "rev b", OF this]
  obtain p where "dropWhile isWhiteSpace (rev b @ rev w) = p @ rev w"
    by blast
  with 1 show ?thesis by (simp add: trim_def)
qed

lemma words_loop_ok:
  "\<forall>c\<in>set chunks. chunk_ok m W c \<Longrightarrow> cur_ok m W cur \<Longrightarrow>
   \<forall>w\<in>set ws. w \<in> W \<and> solid w \<Longrightarrow>
   \<forall>c\<in>set (words_loop m ws chunks cur). chunk_ok m W c"
proof (induction ws arbitrary: chunks cur)
  case Nil
  then show ?case
    by (auto simp: chunk_ok_def cur_ok_def trim_trimmed)
next
  case (Cons w ws)
  from Cons.prems(3) have rest: "\<forall>w\<in>set ws. w \<in> W \<and> solid w" and w: "w \<in> W" "solid w"
    by simp_all
  show ?case
  proof (cases "length (trim (cur @ 0x20 # w)) \<le> m")
    case True
    then have "cur_ok m W (cur @ 0x20 # w)" by (simp add: cur_ok_def)
    from Cons.IH [OF Cons.prems(1) this rest] True show ?thesis by simp
  next
    case False
    have c1: "\<forall>c\<in>set (if trim cur \<noteq> [] then chunks @ [trim cur] else chunks). chunk_ok m W c"
      using Cons.prems(1,2) by (auto simp: chunk_ok_def cur_ok_def trim_trimmed)
    from w have "cur_ok m W w" by (simp add: cur_ok_def solid_trim)
    from Cons.IH [OF c1 this rest] False show ?thesis by simp
  qed
qed

lemma words_loop_keeps: "set chunks \<subseteq> set (words_loop m ws chunks cur)"
proof (induction ws arbitrary: chunks cur)
  case Nil
  then show ?case by auto
next
  case (Cons w ws)
  show ?case
  proof (cases "length (trim (cur @ 0x20 # w)) \<le> m")
    case True
    with Cons.IH [of chunks "cur @ 0x20 # w"] show ?thesis by simp
  next
    case False
    define chunks' where "chunks' = (if trim cur \<noteq> [] then chunks @ [trim cur] else chunks)"
    have "set chunks \<subseteq> set chunks'" by (auto simp: chunks'_def)
    also have "\<dots> \<subseteq> set (words_loop m ws chunks' w)" by (rule Cons.IH)
    finally show ?thesis using False by (simp add: chunks'_def)
  qed
qed

lemma words_loop_long_cur:
  "trimmed cur \<Longrightarrow> m < length cur \<Longrightarrow> cur \<in> set (words_loop m ws chunks cur)"
proof (induction ws arbitrary: chunks)
  case Nil
  then show ?case by (auto simp: trimmed_trim_id trimmed_def)
next
  case (Cons w ws)
  from trim_starts_with [OF Cons.prems(1), of "0x20 # w"] obtain q
    where "trim (cur @ 0x20 # w) = cur @ q" by blast
  with Cons.prems(2) have over: "\<not> length (trim (cur @ 0x20 # w)) \<le> m" by simp
  have "cur \<in> set (chunks @ [cur])" by simp
  with words_loop_keeps [of "chunks @ [cur]" m ws w]
  have "cur \<in> set (words_loop m ws (chunks @ [cur]) w)" by blast
  moreover from Cons.prems(1) have "trim cur = cur" "cur \<noteq> []"
    by (simp_all add: trimmed_trim_id trimmed_def)
  ultimately show ?case using over by simp
qed

lemma words_loop_long_word:
  "w \<in> set ws \<Longrightarrow> \<forall>w\<in>set ws. solid w \<Longrightarrow> m < length w \<Longrightarrow>
   w \<in> set (words_loop m ws chunks cur)"
proof (induction ws arbitrary: chunks cur)
  case Nil
  then show ?case by simp
next
  case (Cons v ws)
  from Cons.prems(2) have rest: "\<forall>w\<in>set ws. solid w" by simp
  show ?case
  proof (cases "w = v")
    case True
    from Cons.prems(2,3) True have tw: "trimmed w"
      by (intro solid_trimmed) auto
    from trim_ends_with [OF tw, of "cur @ [0x20]"] obtain p
      where "trim (cur @ 0x20 # w) = p @ w" by auto
    with Cons.prems(3) have over: "\<not> length (trim (cur @ 0x20 # w)) \<le> m" by simp
    from words_loop_long_cur [OF tw Cons.prems(3)]
    have "w \<in> set (words_loop m ws (if trim cur \<noteq> [] then chunks @ [trim cur] else chunks) w)" .
    with over True show ?thesis by simp
  next
    case False
    with Cons.prems(1) have mem: "w \<in> set ws" by simp
    from Cons.IH [OF mem rest Cons.prems(3)] show ?thesis by simp
  qed
qed

lemma split_spaces_chars:
  "p \<in> set (split_spaces cur s) \<Longrightarrow> set p \<subseteq> set cur \<union> set s"
proof (induction cur s rule: split_spaces.induct)
  case (1 cur)
  then show ?case by simp
next
  case (2 cur c cs)
  show ?case
  proof (cases "isWhiteSpace c")
    case True
    with 2(3) have "p = cur \<or> p \<in> set (split_spaces [] (dropWhile isWhiteSpace cs))" by simp
    then show ?thesis
    proof
      assume "p = cur" then show ?thesis by auto
    next
      assume "p \<in> set (split_spaces [] (dropWhile isWhiteSpace cs))"
      from 2(1) [OF True this] set_dropWhile_subset [of isWhiteSpace cs]
      show ?thesis by auto
    qed
  next
    case False
    with 2(3) have "p \<in> set (split_spaces (cur @ [c]) cs)" by simp
    from 2(2) [OF False this] show ?thesis by auto
  qed
qed

lemma words_loop_blank:
  "\<forall>w\<in>set ws. w = [] \<Longrightarrow> trim cur = [] \<Longrightarrow> words_loop m ws chunks cur = chunks"
proof (induction ws arbitrary: cur)
  case Nil
  then show ?case by simp
next
  case (Cons w ws)
  from Cons.prems have w: "w = []" by simp
  from Cons.prems(2) have "\<forall>c\<in>set cur. isWhiteSpace c" by (simp add: trim_eq_Nil_iff)
  then have t: "trim (cur @ [0x20]) = []" by (simp add: trim_eq_Nil_iff)
  with Cons.IH [of "cur @ [0x20]"] Cons.prems w show ?case by simp
qed

lemma chunk_words_blank:
  assumes "\<forall>ch\<in>set src. isWhiteSpace ch"
  shows "chunk_words src m = []"
proof -
  have "w = []" if "w \<in> set (split_spaces [] src)" for w
  proof -
    from split_spaces_solid [OF _ that] have "solid w" by (simp add: solid_def)
    moreover from split_spaces_chars [OF that] have "set w \<subseteq> set src" by simp
    ultimately show ?thesis using assms by (cases w) (auto simp: solid_def)
  qed
  then show ?thesis by (simp add: chunk_words_def words_loop_blank)
qed

subsection \<open>Postconditions and round trip\<close>

text \<open>
  Claim C2. For every input and every bound, each chunk is non-empty, is its own trim, and
  is either no longer than the bound or one whole unit of the input (a trimmed segment for
  the sentence-based chunker, a word for the word-based one); a unit longer than the bound
  is a chunk of its own; an input of white space only gives no chunk.
\<close>

theorem chunk_postconditions:
  "(\<forall>c\<in>set (chunk src maxLen).
       c \<noteq> [] \<and> trim c = c \<and> (length c \<le> maxLen \<or> c \<in> set (map trim (segments src))))
   \<and> (\<forall>seg\<in>set (segments src).
         maxLen < length (trim seg) \<longrightarrow> trim seg \<in> set (chunk src maxLen))
   \<and> ((\<forall>ch\<in>set src. isWhiteSpace ch) \<longrightarrow> chunk src maxLen = [])
   \<and> (\<forall>c\<in>set (chunk_words src maxLen).
         c \<noteq> [] \<and> trim c = c \<and> (length c \<le> maxLen \<or> c \<in> set (split_spaces [] src)))
   \<and> (\<forall>w\<in>set (split_spaces [] src).
         maxLen < length w \<longrightarrow> w \<in> set (chunk_words src maxLen))
   \<and> ((\<forall>ch\<in>set src. isWhiteSpace ch) \<longrightarrow> chunk_words src maxLen = [])"
proof (intro conjI ballI impI)
  fix c assume c: "c \<in> set (chunk src maxLen)"
  have "\<forall>c\<in>set (chunk_loop maxLen (segments src) [] []).
          chunk_ok maxLen (set (map trim (segments src))) c"
    by (rule chunk_loop_ok) auto
  with c have ok: "chunk_ok maxLen (set (map trim (segments src))) c"
    by (simp add: chunk_def)
  then show "c \<noteq> []" by (simp add: chunk_ok_def trimmed_def)
  from ok show "trim c = c" by (simp add: chunk_ok_def trimmed_trim_id)
  from ok show "length c \<le> maxLen \<or> c \<in> set (map trim (segments src))"
    by (simp add: chunk_ok_def)
next
  fix seg assume "seg \<in> set (segments src)" "maxLen < length (trim seg)"
  then show "trim seg \<in> set (chunk src maxLen)"
    unfolding chunk_def by (intro chunk_loop_long_seg) simp_all
next
  assume "\<forall>ch\<in>set src. isWhiteSpace ch"
  then show "chunk src maxLen = []"
    by (simp add: chunk_def segments_blank)
next
  have sol: "\<forall>w\<in>set (split_spaces [] src). w \<in> set (split_spaces [] src) \<and> solid w"
    using split_spaces_solid [of "[]" _ src] by (simp add: solid_def)
  fix c assume c: "c \<in> set (chunk_words src maxLen)"
  have "\<forall>c\<in>set (words_loop maxLen (split_spaces [] src) [] []).
          chunk_ok maxLen (set (split_spaces [] src)) c"
    by (rule words_loop_ok [OF _ _ sol]) (simp_all add: cur_ok_def)
  with c have ok: "chunk_ok maxLen (set (split_spaces [] src)) c"
    by (simp add: chunk_words_def)
  then show "c \<noteq> []" by (simp add: chunk_ok_def trimmed_def)
  from ok show "trim c = c" by (simp add: chunk_ok_def trimmed_trim_id)
  from ok show "length c \<le> maxLen \<or> c \<in> set (split_spaces [] src)"
    by (simp add: chunk_ok_def)
next
  fix w assume w: "w \<in> set (split_spaces [] src)" "maxLen < length w"
  have "\<forall>w\<in>set (split_spaces [] src). solid w"
    using split_spaces_solid [of "[]" _ src] by (simp add: solid_def)
  from words_loop_long_word [OF w(1) this w(2)]
  show "w \<in> set (chunk_words src maxLen)" by (simp add: chunk_words_def)
next
  assume "\<forall>ch\<in>set src. isWhiteSpace ch"
  then show "chunk_words src maxLen = []" by (rule chunk_words_blank)
qed

theorem chunk_postconditions_witness:
  "chunk (js ''Go on. Extraordinarily'') 6 = [js ''Go on.'', js ''Extraordinarily'']
   \<and> trim (js ''Go on.'') = js ''Go on.'' \<and> length (js ''Go on.'') \<le> 6
   \<and> trim (js ''Extraordinarily'') = js ''Extraordinarily''
   \<and> js ''Extraordinarily'' \<in> set (map trim (segments (js ''Go on. Extraordinarily'')))
   \<and> 6 < length (trim (js ''Extraordinarily''))
   \<and> js ''Extraordinarily'' \<in> set (chunk (js ''Go on. Extraordinarily'') 6)
   \<and> list_all isWhiteSpace (js ''  '') \<and> chunk (js ''  '') 6 = []
   \<and> split_spaces [] (js ''Go on. Extraordinarily'') = [js ''Go'', js ''on.'', js ''Extraordinarily'']
   \<and> chunk_words (js ''Go on. Extraordinarily'') 6 = [js ''Go on.'', js ''Extraordinarily'']
   \<and> js ''Extraordinarily'' \<in> set (chunk_words (js ''Go on. Extraordinarily'') 6)
   \<and> chunk_words (js ''  '') 6 = []"
proof -
  have seg: "segments (js ''Go on. Extraordinarily'') = [js ''Go on.'', js ''Extraordinarily'']"
    by code_simp
  have ch: "chunk (js ''Go on. Extraordinarily'') 6 = [js ''Go on.'', js ''Extraordinarily'']"
    by code_simp
  have len: "length (js ''Go on.'') \<le> 6"
    by code_simp
  have long: "6 < length (trim (js ''Extraordinarily''))"
    by code_simp
  have blank: "list_all isWhiteSpace (js ''  '')"
    by code_simp
  have sp: "split_spaces [] (js ''Go on. Extraordinarily'') = [js ''Go'', js ''on.'', js ''Extraordinarily'']"
    by code_simp
  have chw: "chunk_words (js ''Go on. Extraordinarily'') 6 = [js ''Go on.'', js ''Extraordinarily'']"
    by code_simp
  note post = chunk_postconditions [of "js ''Go on. Extraordinarily''" 6]
  from post ch have t1: "trim (js ''Go on.'') = js ''Go on.''"
    and t2: "trim (js ''Extraordinarily'') = js ''Extraordinarily''"
    by simp_all
  from post seg long t2 have own: "js ''Extraordinarily'' \<in> set (chunk (js ''Go on. Extraordinarily'') 6)"
    by simp
  from seg t1 t2 have mem: "js ''Extraordinarily'' \<in> set (map trim (segments (js ''Go on. Extraordinarily'')))"
    by simp
  from long t2 have longw: "6 < length (js ''Extraordinarily'')"
    by simp
  from post sp longw have ownw: "js ''Extraordinarily'' \<in> set (chunk_words (js ''Go on. Extraordinarily'') 6)"
    by simp
  from chunk_postconditions [of "js ''  ''" 6] blank
  have none: "chunk (js ''  '') 6 = []" and nonew: "chunk_words (js ''  '') 6 = []"
    by (simp_all add: list_all_iff)
  from ch t1 len t2 mem long own blank none sp chw ownw nonew show ?thesis
    by simp
qed

text \<open>
  Claim C3. Joining the chunks with single spaces gives a string with the word sequence
  of the input, for every input and every bound, for both chunkers.
\<close>

theorem chunk_roundtrip:
  "words_of (join_sp (chunk src maxLen)) = words_of src
   \<and> words_of (join_sp (chunk_words src maxLen)) = words_of src"
proof
  have "concat (map words_of (chunk src maxLen)) = words_of src"
    by (simp add: chunk_def words_of_chunk_loop words_of_segments)
  then show "words_of (join_sp (chunk src maxLen)) = words_of src"
    by (simp add: words_of_join_sp)
next
  have "concat (map words_of (chunk_words src maxLen)) = words_of src"
    by (simp add: chunk_words_def words_of_words_loop words_of_split_spaces)
  then show "words_of (join_sp (chunk_words src maxLen)) = words_of src"
    by (simp add: words_of_join_sp)
qed

section \<open>Properties of the orchestrator\<close>

lemma startsWith_sparkles [simp]: "startsWith (sparkles @ x) sparkles"
  by (simp add: startsWith_def)

lemma stopSpeaking_frame [simp]:
  "conversation (stopSpeaking s) = conversation s"
  "message (stopSpeaking s) = message s"
  "isListening (stopSpeaking s) = isListening s"
  "isLoading (stopSpeaking s) = isLoading s"
  "error (stopSpeaking s) = error s"
  "awaitingFeatureInput (stopSpeaking s) = awaitingFeatureInput s"
  "recognitionRef (stopSpeaking s) = recognitionRef s"
  "synthRef (stopSpeaking s) = synthRef s"
  "rec_active (stopSpeaking s) = rec_active s"
  "pending_fetches (stopSpeaking s) = pending_fetches s"
  by (simp_all add: stopSpeaking_def synth_cancel_def)

lemma speakMessage_frame [simp]:
  "conversation (speakMessage t s) = conversation s"
  "message (speakMessage t s) = message s"
  "isListening (speakMessage t s) = isListening s"
  "isLoading (speakMessage t s) = isLoading s"
  "awaitingFeatureInput (speakMessage t s) = awaitingFeatureInput s"
  "recognitionRef (speakMessage t s) = recognitionRef s"
  "synthRef (speakMessage t s) = synthRef s"
  "rec_active (speakMessage t s) = rec_active s"
  "pending_fetches (speakMessage t s) = pending_fetches s"
  by (simp_all add: speakMessage_def Let_def speakNext_def synth_speak_def)

lemma stopSpeaking_cancels: "synthRef s \<Longrightarrow> synth_speaking s \<Longrightarrow> \<not> isSpeaking (stopSpeaking s)"
  by (simp add: stopSpeaking_def synth_cancel_def)

lemmas trigger_defs =
  sendMessage_def closure_of_def sendMessage_in_def sendPromptToGemini_def startListening_def
  stopSpeaking_def synth_cancel_def mounted_def Let_def busy_def

text \<open>
  Evaluations that the examples below share.
\<close>

lemma trim_Hi: "trim (js ''Hi'') = js ''Hi''"
  by code_simp

lemma Hi_nonempty: "js ''Hi'' \<noteq> []"
  by (simp add: js_def)

lemma trim_blank: "trim (js '' '') = []"
  by code_simp

lemma greeting_not_listening: "text greeting \<noteq> listening_text"
  by (simp add: greeting_def listening_text_def js_def)

lemma Hi_not_listening: "js ''Hi'' \<noteq> listening_text"
  by (simp add: listening_text_def js_def)

lemma Hi_no_sparkles: "\<not> startsWith (js ''Hi'') sparkles"
  by (simp add: startsWith_def sparkles_def js_def)

lemma Hi_sent:
  "sendMessage (js ''Hi'') (mounted True) =
     (mounted True)\<lparr>conversation := [greeting, \<lparr>role = User, text = js ''Hi''\<rparr>],
       isLoading := True,
       effects := [Fetch (chatHistory [greeting] (js ''Hi''))],
       pending_fetches := 1\<rparr>"
  by (simp add: trigger_defs trim_Hi Hi_nonempty greeting_not_listening)

lemma chunk_fallback: "chunk fallback_apology maxUtteranceLength = [fallback_apology]"
  by code_simp

lemma chunk_long_reply:
  "chunk long_reply maxUtteranceLength =
    [vocab_promptText @ js '' Certainly.'',
     js ''Please provide the sentence you wish to rephrase. I will endeavour to make it sound more quintessentially British.'']"
  by code_simp

lemma chunk_Hi: "chunk (js ''Hi'') maxUtteranceLength = [js ''Hi'']"
  by code_simp

lemma speakMessage_effects:
  "synthRef s \<Longrightarrow> chunk t maxUtteranceLength = c # cs \<Longrightarrow>
   last (effects (speakMessage t s)) = SynthSpeak c"
  by (simp add: speakMessage_def Let_def speakNext_def synth_speak_def)

lemma speakMessage_mounted:
  "chunk t maxUtteranceLength = c # cs \<Longrightarrow>
   speakMessage t (mounted True) =
     (mounted True)\<lparr>utt_chunks := c # cs, currentChunkIndex := 0,
                     effects := [SynthSpeak c], inflight := Some c\<rparr>"
  by (simp add: speakMessage_def Let_def speakNext_def synth_speak_def stopSpeaking_def mounted_def)

lemma playing_mounted:
  "chunk t maxUtteranceLength = c # cs \<Longrightarrow>
   synth_deliver SigStart (speakMessage t (mounted True)) =
     (mounted True)\<lparr>utt_chunks := c # cs, currentChunkIndex := 0,
                     effects := [SynthSpeak c], inflight := Some c,
                     synth_speaking := True, isSpeaking := True\<rparr>"
  by (simp add: speakMessage_mounted synth_deliver_def utterance_onstart_def) (simp add: mounted_def)


lemma step_SendMessage:
  "step (SendMessage t) s = (sendMessage t s)\<lparr>captured_message := message (sendMessage t s)\<rparr>"
  by (simp add: step_def Let_def)

lemma step_Settled:
  "0 < pending_fetches s \<Longrightarrow>
   step (Settled outcome) s =
     (sendPromptToGemini_settled outcome (s\<lparr>pending_fetches := pending_fetches s - 1\<rparr>))
     \<lparr>captured_message :=
        message (sendPromptToGemini_settled outcome (s\<lparr>pending_fetches := pending_fetches s - 1\<rparr>))\<rparr>"
  by (simp add: step_def Let_def)

lemma trim_typed_sparkles: "trim typed_sparkles = typed_sparkles"
  by code_simp

lemma typed_sparkles_nonempty: "typed_sparkles \<noteq> []"
  by (simp add: typed_sparkles_def sparkles_def)

lemma typed_sparkles_not_listening: "typed_sparkles \<noteq> listening_text"
  by (simp add: typed_sparkles_def sparkles_def listening_text_def js_def)

lemma typed_sparkles_starts: "startsWith typed_sparkles sparkles"
  by (simp add: typed_sparkles_def)

subsection \<open>Activity flags\<close>

text \<open>
  Claim C1, as amended. The flags are kept apart by the guards of the triggers, not by an
  invariant of the state: a busy component (a flag set or a feature input awaited) turns
  each of the four feature triggers into a mere clearing of the error; \<open>startListening\<close>
  starts nothing while listening, \<open>sendMessage\<close> dispatches nothing while loading, and
  both first cancel speech that the engine reports as in progress, which clears
  \<open>isSpeaking\<close>. Submitting a recognised transcript leaves \<open>isListening\<close> as it is.
\<close>

theorem flag_guards:
  "(busy s \<longrightarrow>
      getPronunciationTips s = s\<lparr>error := []\<rparr> \<and> getBritishVocabulary s = s\<lparr>error := []\<rparr>
      \<and> rephraseSentence s = s\<lparr>error := []\<rparr> \<and> startRolePlay s = s\<lparr>error := []\<rparr>)
   \<and> (isListening s \<longrightarrow>
        startListening throws s = (stopSpeaking s)\<lparr>error := err_recognition_unavailable\<rparr>)
   \<and> (isLoading s \<longrightarrow>
        isLoading (sendMessage txt s) \<and> effects (sendMessage txt s) = effects s
        \<and> pending_fetches (sendMessage txt s) = pending_fetches s)
   \<and> (synthRef s \<and> synth_speaking s \<longrightarrow>
        \<not> isSpeaking (startListening throws s)
        \<and> (\<not> isLoading s \<and> trim txt \<noteq> [] \<longrightarrow> \<not> isSpeaking (sendMessage txt s)))
   \<and> isListening (recognition_onresult txt s) = isListening s"
proof (intro conjI impI)
  assume "busy s"
  then show "getPronunciationTips s = s\<lparr>error := []\<rparr>" "getBritishVocabulary s = s\<lparr>error := []\<rparr>"
    "rephraseSentence s = s\<lparr>error := []\<rparr>" "startRolePlay s = s\<lparr>error := []\<rparr>"
    by (simp_all add: getPronunciationTips_def getBritishVocabulary_def rephraseSentence_def
          startRolePlay_def Let_def)
next
  assume "isListening s"
  then show "startListening throws s = (stopSpeaking s)\<lparr>error := err_recognition_unavailable\<rparr>"
    by (simp add: startListening_def Let_def)
next
  assume "isLoading s"
  then show "isLoading (sendMessage txt s)" "effects (sendMessage txt s) = effects s"
    "pending_fetches (sendMessage txt s) = pending_fetches s"
    by (simp_all add: sendMessage_def closure_of_def sendMessage_in_def Let_def)
next
  assume sp: "synthRef s \<and> synth_speaking s"
  then have c: "\<not> isSpeaking (stopSpeaking s)" by (simp add: stopSpeaking_cancels)
  then show "\<not> isSpeaking (startListening throws s)"
    by (simp add: startListening_def Let_def)
  assume "\<not> isLoading s \<and> trim txt \<noteq> []"
  with sp show "\<not> isSpeaking (sendMessage txt s)"
    by (simp add: sendMessage_def closure_of_def sendMessage_in_def Let_def sendPromptToGemini_def
          stopSpeaking_def synth_cancel_def split: option.splits feature.splits)
next
  show "isListening (recognition_onresult txt s) = isListening s"
    by (simp add: recognition_onresult_def sendMessage_in_def Let_def sendPromptToGemini_def
          split: option.splits feature.splits)
qed

text \<open>
  The claim as stated fails: after \<open>startListening\<close> and a recognised transcript the
  component is listening and loading at once.
\<close>

theorem flag_guards_counterexample:
  "isListening (run [StartListening False, OnResult (js ''Hi'')] (mounted True))
   \<and> isLoading (run [StartListening False, OnResult (js ''Hi'')] (mounted True))"
  by (simp add: step_def startListening_def recognition_onresult_def closure_of_def
        sendMessage_in_def Let_def sendPromptToGemini_def mounted_def stopSpeaking_def
        trim_Hi Hi_nonempty)

theorem flag_guards_witness:
  "busy (sendMessage (js ''Hi'') (mounted True))
   \<and> isLoading (sendMessage (js ''Hi'') (mounted True))
   \<and> getPronunciationTips (sendMessage (js ''Hi'') (mounted True))
       = sendMessage (js ''Hi'') (mounted True)
   \<and> startRolePlay (sendMessage (js ''Hi'') (mounted True))
       = sendMessage (js ''Hi'') (mounted True)
   \<and> effects (sendMessage (js ''Hi'') (sendMessage (js ''Hi'') (mounted True)))
       = effects (sendMessage (js ''Hi'') (mounted True))
   \<and> isListening (startListening False (mounted True))
   \<and> effects (startListening False (startListening False (mounted True)))
       = effects (startListening False (mounted True))
   \<and> synth_speaking (synth_deliver SigStart (speakMessage (js ''Hi'') (mounted True)))
   \<and> isSpeaking (synth_deliver SigStart (speakMessage (js ''Hi'') (mounted True)))
   \<and> \<not> isSpeaking (startListening False
                     (synth_deliver SigStart (speakMessage (js ''Hi'') (mounted True))))
   \<and> \<not> isSpeaking (sendMessage (js ''Hi'')
                     (synth_deliver SigStart (speakMessage (js ''Hi'') (mounted True))))"
proof -
  define l where "l = sendMessage (js ''Hi'') (mounted True)"
  have lo: "isLoading l" by (simp add: l_def Hi_sent)
  then have b: "busy l" by (simp add: busy_def)
  have le: "error l = []" by (simp add: l_def Hi_sent) (simp add: mounted_def)
  then have lid: "l\<lparr>error := []\<rparr> = l" by (metis app_state.surjective app_state.update_convs(6))
  from flag_guards [of l False "js ''Hi''"] b lid
  have 1: "getPronunciationTips l = l" and 2: "startRolePlay l = l" by simp_all
  from flag_guards [of l False "js ''Hi''"] lo
  have 3: "effects (sendMessage (js ''Hi'') l) = effects l" by blast
  define h where "h = startListening False (mounted True)"
  have li: "isListening h" by (simp add: h_def trigger_defs)
  have hs: "stopSpeaking h = h" by (simp add: h_def trigger_defs)
  from flag_guards [of h False "js ''Hi''"] li hs
  have 4: "effects (startListening False h) = effects h" by simp
  define p where "p = synth_deliver SigStart (speakMessage (js ''Hi'') (mounted True))"
  note pm = playing_mounted [OF chunk_Hi, folded p_def]
  have ps: "synthRef p" "synth_speaking p" "isSpeaking p" "\<not> isLoading p"
    by (simp_all add: pm) (simp_all add: mounted_def)
  from flag_guards [of p False "js ''Hi''"] ps trim_Hi Hi_nonempty
  have 5: "\<not> isSpeaking (startListening False p)" and 6: "\<not> isSpeaking (sendMessage (js ''Hi'') p)"
    by simp_all
  from b lo 1 2 3 li 4 ps 5 6 show ?thesis
    unfolding l_def h_def p_def by blast
qed

subsection \<open>Feature input\<close>

lemma prompts_differ: "rephrase_prompt a \<noteq> vocab_prompt b"
proof
  assume "rephrase_prompt a = vocab_prompt b"
  then have "rephrase_prompt a ! 9 = vocab_prompt b ! 9" by simp
  then show False
    by (simp add: rephrase_prompt_def vocab_prompt_def js_def nth_append)
qed

text \<open>
  Claim C4, as amended. A feature trigger on an idle component sets the awaited input.
  While the vocabulary input is awaited and nothing is loading, submitting a text that is
  not blank resets the awaited input and dispatches a request whose prompt is the
  vocabulary template around the trimmed text; while the rephrase input is awaited, the
  rephrase template, which differs from the vocabulary template. A blank text leaves the
  awaited input as it is and dispatches nothing.
\<close>

theorem feature_consumption:
  "(\<not> busy s \<longrightarrow>
      awaitingFeatureInput (getBritishVocabulary s) = Some Vocab
      \<and> \<not> isLoading (getBritishVocabulary s)
      \<and> awaitingFeatureInput (rephraseSentence s) = Some Rephrase
      \<and> \<not> isLoading (rephraseSentence s))
   \<and> (\<not> isLoading s \<and> trim txt \<noteq> [] \<longrightarrow>
        (awaitingFeatureInput s = Some Vocab \<longrightarrow>
           awaitingFeatureInput (sendMessage txt s) = None
           \<and> last (effects (sendMessage txt s)) =
               Fetch (chatHistory (conversation s) (vocab_prompt (trim txt))))
        \<and> (awaitingFeatureInput s = Some Rephrase \<longrightarrow>
           awaitingFeatureInput (sendMessage txt s) = None
           \<and> last (effects (sendMessage txt s)) =
               Fetch (chatHistory (conversation s) (rephrase_prompt (trim txt)))))
   \<and> rephrase_prompt (trim txt) \<noteq> vocab_prompt (trim txt)
   \<and> (trim txt = [] \<longrightarrow>
        awaitingFeatureInput (sendMessage txt s) = awaitingFeatureInput s
        \<and> effects (sendMessage txt s) = effects s)"
proof (intro conjI impI)
  assume "\<not> busy s"
  then show "awaitingFeatureInput (getBritishVocabulary s) = Some Vocab"
    "\<not> isLoading (getBritishVocabulary s)"
    "awaitingFeatureInput (rephraseSentence s) = Some Rephrase"
    "\<not> isLoading (rephraseSentence s)"
    by (simp_all add: getBritishVocabulary_def rephraseSentence_def Let_def busy_def)
next
  assume "\<not> isLoading s \<and> trim txt \<noteq> []" and "awaitingFeatureInput s = Some Vocab"
  then show "awaitingFeatureInput (sendMessage txt s) = None"
    "last (effects (sendMessage txt s)) =
       Fetch (chatHistory (conversation s) (vocab_prompt (trim txt)))"
    by (simp_all add: sendMessage_def closure_of_def sendMessage_in_def Let_def sendPromptToGemini_def)
next
  assume "\<not> isLoading s \<and> trim txt \<noteq> []" and "awaitingFeatureInput s = Some Rephrase"
  then show "awaitingFeatureInput (sendMessage txt s) = None"
    "last (effects (sendMessage txt s)) =
       Fetch (chatHistory (conversation s) (rephrase_prompt (trim txt)))"
    by (simp_all add: sendMessage_def closure_of_def sendMessage_in_def Let_def sendPromptToGemini_def)
next
  show "rephrase_prompt (trim txt) \<noteq> vocab_prompt (trim txt)" by (rule prompts_differ)
next
  assume "trim txt = []"
  then show "awaitingFeatureInput (sendMessage txt s) = awaitingFeatureInput s"
    "effects (sendMessage txt s) = effects s"
    by (simp_all add: sendMessage_def closure_of_def sendMessage_in_def Let_def)
qed

text \<open>
  The claim as stated fails for a blank text: the submission is rejected and the
  vocabulary input is still awaited.
\<close>

theorem feature_consumption_counterexample:
  "awaitingFeatureInput (sendMessage [] (getBritishVocabulary (mounted True))) = Some Vocab"
  by (simp add: sendMessage_def closure_of_def sendMessage_in_def Let_def getBritishVocabulary_def busy_def
        mounted_def)

theorem feature_consumption_witness:
  "\<not> busy (mounted True) \<and> trim (js ''Hi'') = js ''Hi''
   \<and> awaitingFeatureInput (getBritishVocabulary (mounted True)) = Some Vocab
   \<and> awaitingFeatureInput (sendMessage (js ''Hi'') (getBritishVocabulary (mounted True))) = None
   \<and> last (effects (sendMessage (js ''Hi'') (getBritishVocabulary (mounted True))))
       = Fetch (chatHistory (conversation (getBritishVocabulary (mounted True)))
                  (vocab_prompt (js ''Hi'')))
   \<and> awaitingFeatureInput (rephraseSentence (mounted True)) = Some Rephrase
   \<and> awaitingFeatureInput (sendMessage (js ''Hi'') (rephraseSentence (mounted True))) = None
   \<and> last (effects (sendMessage (js ''Hi'') (rephraseSentence (mounted True))))
       = Fetch (chatHistory (conversation (rephraseSentence (mounted True)))
                  (rephrase_prompt (js ''Hi'')))"
proof -
  have nb: "\<not> busy (mounted True)" by (simp add: busy_def mounted_def)
  from feature_consumption [of "mounted True" "js ''Hi''"] nb
  have v: "awaitingFeatureInput (getBritishVocabulary (mounted True)) = Some Vocab"
    "\<not> isLoading (getBritishVocabulary (mounted True))"
    and r: "awaitingFeatureInput (rephraseSentence (mounted True)) = Some Rephrase"
    "\<not> isLoading (rephraseSentence (mounted True))"
    by simp_all
  from feature_consumption [of "getBritishVocabulary (mounted True)" "js ''Hi''"] v
  have 1: "awaitingFeatureInput (sendMessage (js ''Hi'') (getBritishVocabulary (mounted True))) = None"
    "last (effects (sendMessage (js ''Hi'') (getBritishVocabulary (mounted True))))
       = Fetch (chatHistory (conversation (getBritishVocabulary (mounted True)))
                  (vocab_prompt (js ''Hi'')))"
    by (simp_all add: trim_Hi Hi_nonempty)
  from feature_consumption [of "rephraseSentence (mounted True)" "js ''Hi''"] r
  have 2: "awaitingFeatureInput (sendMessage (js ''Hi'') (rephraseSentence (mounted True))) = None"
    "last (effects (sendMessage (js ''Hi'') (rephraseSentence (mounted True))))
       = Fetch (chatHistory (conversation (rephraseSentence (mounted True)))
                  (rephrase_prompt (js ''Hi'')))"
    by (simp_all add: trim_Hi Hi_nonempty)
  from nb trim_Hi v r 1 2 show ?thesis by blast
qed

subsection \<open>The submission snapshot\<close>

text \<open>
  Claim C5. Every Turn of the snapshot sent to the language model is a Turn of the log
  and is none of: the listening placeholder, the vocabulary, rephrase and role-play
  markers, a pronunciation-tips marker, the two acknowledgements. The request is the
  persona instruction, the snapshot, and the prompt.
\<close>

theorem marker_exclusion:
  "(\<forall>t\<in>set (filteredConversation conv).
      t \<in> set conv
      \<and> t \<noteq> \<lparr>role = User, text = listening_text\<rparr>
      \<and> t \<noteq> vocab_marker \<and> t \<noteq> rephrase_marker \<and> t \<noteq> roleplay_marker
      \<and> (\<forall>q. t \<noteq> tips_marker q)
      \<and> t \<noteq> vocab_ack \<and> t \<noteq> rephrase_ack)
   \<and> chatHistory conv p =
       \<lparr>c_role = User, c_text = initialPrompt\<rparr>
       # map (\<lambda>msg. \<lparr>c_role = role msg, c_text = text msg\<rparr>) (filteredConversation conv)
       @ [\<lparr>c_role = User, c_text = p\<rparr>]"
proof (intro conjI ballI)
  fix t assume "t \<in> set (filteredConversation conv)"
  then have t: "t \<in> set conv" "text t \<noteq> listening_text" "\<not> startsWith (text t) sparkles"
    "text t \<noteq> text vocab_ack" "text t \<noteq> text rephrase_ack"
    by (simp_all add: filteredConversation_def)
  from t(1) show "t \<in> set conv" .
  from t(2) show "t \<noteq> \<lparr>role = User, text = listening_text\<rparr>" by auto
  from t(3) show "t \<noteq> vocab_marker" by (auto simp: vocab_marker_def)
  from t(3) show "t \<noteq> rephrase_marker" by (auto simp: rephrase_marker_def)
  from t(3) show "t \<noteq> roleplay_marker" by (auto simp: roleplay_marker_def)
  from t(3) show "\<forall>q. t \<noteq> tips_marker q" by (auto simp: tips_marker_def)
  from t(4) show "t \<noteq> vocab_ack" by auto
  from t(5) show "t \<noteq> rephrase_ack" by auto
next
  have "(if role msg = User then User else Model) = role msg" for msg :: turn
    by (cases "role msg") simp_all
  then show "chatHistory conv p =
       \<lparr>c_role = User, c_text = initialPrompt\<rparr>
       # map (\<lambda>msg. \<lparr>c_role = role msg, c_text = text msg\<rparr>) (filteredConversation conv)
       @ [\<lparr>c_role = User, c_text = p\<rparr>]"
    by (simp add: chatHistory_def)
qed

theorem marker_exclusion_witness:
  "filteredConversation
     [greeting, vocab_marker, \<lparr>role = User, text = listening_text\<rparr>, tips_marker (js ''Hi''),
      vocab_ack, \<lparr>role = User, text = js ''Hi''\<rparr>]
     = [greeting, \<lparr>role = User, text = js ''Hi''\<rparr>]
   \<and> greeting \<noteq> vocab_marker \<and> greeting \<noteq> vocab_ack
   \<and> \<lparr>role = User, text = js ''Hi''\<rparr> \<noteq> tips_marker (js ''Hi'')
   \<and> \<lparr>role = User, text = js ''Hi''\<rparr> \<noteq> \<lparr>role = User, text = listening_text\<rparr>"
proof -
  have f: "filteredConversation
     [greeting, vocab_marker, \<lparr>role = User, text = listening_text\<rparr>, tips_marker (js ''Hi''),
      vocab_ack, \<lparr>role = User, text = js ''Hi''\<rparr>]
     = [greeting, \<lparr>role = User, text = js ''Hi''\<rparr>]"
    by (simp add: filteredConversation_def greeting_def vocab_marker_def tips_marker_def
          vocab_ack_def rephrase_ack_def listening_text_def startsWith_def sparkles_def js_def)
  from marker_exclusion [of "[greeting, vocab_marker, \<lparr>role = User, text = listening_text\<rparr>,
      tips_marker (js ''Hi''), vocab_ack, \<lparr>role = User, text = js ''Hi''\<rparr>]" "js ''Yo''"] f
  show ?thesis by simp
qed

text \<open>
  Claim C10. Markers are found by their text alone: a Turn of any role whose text is the
  listening text, starts with the sparkles character or is one of the two
  acknowledgement texts is not in the snapshot; and \<open>sendMessage\<close> with a blank text
  removes every Turn with the listening text from the log, dispatching nothing.
\<close>

theorem sentinel_text_coupling:
  "(text t = listening_text \<or> startsWith (text t) sparkles
      \<or> text t = text vocab_ack \<or> text t = text rephrase_ack
      \<longrightarrow> t \<notin> set (filteredConversation conv))
   \<and> (trim txt = [] \<longrightarrow>
        conversation (sendMessage txt s) =
          filter (\<lambda>msg. text msg \<noteq> listening_text) (conversation s)
        \<and> effects (sendMessage txt s) = effects s)"
  by (auto simp: filteredConversation_def sendMessage_def closure_of_def sendMessage_in_def Let_def)

theorem sentinel_text_coupling_witness:
  "startsWith (text \<lparr>role = Model, text = sparkles @ js ''Well done''\<rparr>) sparkles
   \<and> \<lparr>role = Model, text = sparkles @ js ''Well done''\<rparr> \<notin>
       set (filteredConversation [greeting, \<lparr>role = Model, text = sparkles @ js ''Well done''\<rparr>])
   \<and> trim (js '' '') = []
   \<and> conversation (startListening False (mounted True))
       = [greeting, \<lparr>role = User, text = listening_text\<rparr>]
   \<and> conversation (sendMessage (js '' '') (startListening False (mounted True))) = [greeting]"
proof -
  have a: "startsWith (text \<lparr>role = Model, text = sparkles @ js ''Well done''\<rparr>) sparkles"
    by simp
  have b: "conversation (startListening False (mounted True))
       = [greeting, \<lparr>role = User, text = listening_text\<rparr>]"
    by (simp add: trigger_defs)
  have c: "text greeting \<noteq> listening_text"
    by (simp add: greeting_def listening_text_def js_def)
  from sentinel_text_coupling [of "\<lparr>role = Model, text = sparkles @ js ''Well done''\<rparr>"
      "[greeting, \<lparr>role = Model, text = sparkles @ js ''Well done''\<rparr>]" "js '' ''"
      "startListening False (mounted True)"] a b c trim_blank
  show ?thesis by simp
qed

subsection \<open>Rejected submissions\<close>




subsection \<open>Pronunciation tips\<close>

lemma find_skip: "\<forall>x\<in>set xs. \<not> P x \<Longrightarrow> find P (xs @ ys) = find P ys"
  by (induction xs) auto

lemma lastUserMessage_Some:
  "conv = pre @ m # post \<Longrightarrow> isActualUserMessage m \<Longrightarrow>
   \<forall>x\<in>set post. \<not> isActualUserMessage x \<Longrightarrow> lastUserMessage conv = Some m"
  by (simp add: lastUserMessage_def find_skip)

lemma lastUserMessage_None:
  "\<forall>x\<in>set conv. \<not> isActualUserMessage x \<Longrightarrow> lastUserMessage conv = None"
  by (simp add: lastUserMessage_def find_None_iff)

lemma startsWith_append: "startsWith t (a @ b) \<Longrightarrow> startsWith t a"
proof -
  assume "startsWith t (a @ b)"
  then have "take (length a + length b) t = a @ b" by (simp add: startsWith_def)
  then have "take (length a) (take (length a + length b) t) = a" by simp
  then show ?thesis by (simp add: startsWith_def min_def)
qed

text \<open>The test for a tips marker finds exactly the Turns that \<open>tips_marker\<close> builds.\<close>

lemma is_tips_marker_iff: "is_tips_marker t \<longleftrightarrow> (\<exists>q. t = tips_marker q)"
proof
  assume m: "is_tips_marker t"
  define d where "d = drop (length tips_open) (text t)"
  from m have "text t = tips_open @ d"
    by (metis append_take_drop_id d_def is_tips_marker_def startsWith_def)
  moreover from m have "d \<noteq> []" by (simp add: d_def is_tips_marker_def)
  moreover from m \<open>d \<noteq> []\<close> \<open>text t = tips_open @ d\<close> have "last d = 0x22"
    by (simp add: is_tips_marker_def)
  ultimately have "text t = tips_open @ butlast d @ [0x22]"
    by (metis append_butlast_last_id)
  moreover from m have "role t = User" by (simp add: is_tips_marker_def)
  ultimately have "t = tips_marker (butlast d)"
    by (simp add: tips_marker_def tips_open_def js_def)
  then show "\<exists>q. t = tips_marker q" ..
next
  assume "\<exists>q. t = tips_marker q"
  then obtain q where "t = tips_marker q" ..
  then have "role t = User" "text t = tips_open @ q @ [0x22]"
    by (simp_all add: tips_marker_def tips_open_def js_def)
  then show "is_tips_marker t"
    by (simp add: is_tips_marker_def startsWith_def)
qed

lemma actual_not_marker: "isActualUserMessage m \<Longrightarrow> role m = User \<and> \<not> is_marker m"
proof -
  assume a: "isActualUserMessage m"
  then have r: "role m = User" and l: "text m \<noteq> listening_text"
    and n: "\<not> startsWith (text m) sparkles"
    by (simp_all add: isActualUserMessage_def)
  from n have "\<not> is_tips_marker m"
    by (auto simp: is_tips_marker_def tips_open_def dest: startsWith_append)
  moreover from n have "m \<noteq> vocab_marker" "m \<noteq> rephrase_marker" "m \<noteq> roleplay_marker"
    by (auto simp: vocab_marker_def rephrase_marker_def roleplay_marker_def)
  moreover from r have "m \<noteq> vocab_ack" "m \<noteq> rephrase_ack"
    by (auto simp: vocab_ack_def rephrase_ack_def)
  moreover from l have "m \<noteq> \<lparr>role = User, text = listening_text\<rparr>" by auto
  ultimately show ?thesis using r by (simp add: is_marker_def)
qed

text \<open>
  Claim C9, as amended. On a component that is not busy: without an actual user message
  in the log (a user Turn whose text is not the listening text and does not start with the
  sparkles character) \<open>getPronunciationTips\<close> only sets its error; otherwise it appends
  the marker that quotes the last actual user message and dispatches the tips prompt
  around the same text, leaving the awaited feature input alone. An actual user message
  is a user Turn that is no marker.
\<close>

theorem pronunciation_tips:
  assumes "\<not> busy s"
  shows "((\<forall>x\<in>set (conversation s). \<not> isActualUserMessage x) \<longrightarrow>
            getPronunciationTips s = s\<lparr>error := err_no_user_message\<rparr>)
       \<and> (\<forall>pre m post.
            conversation s = pre @ m # post \<and> isActualUserMessage m
            \<and> (\<forall>x\<in>set post. \<not> isActualUserMessage x) \<longrightarrow>
            getPronunciationTips s =
              s\<lparr>error := [],
                conversation := conversation s @ [tips_marker (text m)],
                isLoading := True,
                effects := effects s @ [Fetch (chatHistory (conversation s) (tips_prompt (text m)))],
                pending_fetches := pending_fetches s + 1\<rparr>)
       \<and> (\<forall>m. isActualUserMessage m \<longrightarrow> role m = User \<and> \<not> is_marker m)"
proof (intro conjI allI impI)
  assume "\<forall>x\<in>set (conversation s). \<not> isActualUserMessage x"
  then have "lastUserMessage (conversation s) = None" by (rule lastUserMessage_None)
  with assms show "getPronunciationTips s = s\<lparr>error := err_no_user_message\<rparr>"
    by (simp add: getPronunciationTips_def Let_def)
next
  fix pre m post
  assume "conversation s = pre @ m # post \<and> isActualUserMessage m
            \<and> (\<forall>x\<in>set post. \<not> isActualUserMessage x)"
  then have "lastUserMessage (conversation s) = Some m"
    by (auto intro: lastUserMessage_Some)
  with assms show "getPronunciationTips s =
              s\<lparr>error := [],
                conversation := conversation s @ [tips_marker (text m)],
                isLoading := True,
                effects := effects s @ [Fetch (chatHistory (conversation s) (tips_prompt (text m)))],
                pending_fetches := pending_fetches s + 1\<rparr>"
    by (simp add: getPronunciationTips_def Let_def sendPromptToGemini_def)
next
  fix m assume "isActualUserMessage m"
  then show "role m = User" "\<not> is_marker m"
    by (simp_all add: actual_not_marker)
qed

lemma typed_sent:
  "run [SendMessage typed_sparkles, Settled Thrown] (mounted True) =
     (mounted True)\<lparr>conversation := [greeting, \<lparr>role = User, text = typed_sparkles\<rparr>, connection_apology],
       error := err_network,
       effects := [Fetch (chatHistory [greeting] typed_sparkles)]\<rparr>"
proof -
  have "sendMessage typed_sparkles (mounted True) =
     (mounted True)\<lparr>conversation := [greeting, \<lparr>role = User, text = typed_sparkles\<rparr>],
       isLoading := True,
       effects := [Fetch (chatHistory [greeting] typed_sparkles)],
       pending_fetches := 1\<rparr>"
    by (simp add: trigger_defs trim_typed_sparkles typed_sparkles_nonempty greeting_not_listening)
  then show ?thesis
    by (simp add: step_SendMessage step_Settled sendPromptToGemini_settled_def)
       (simp add: mounted_def)
qed

lemma differs_at: "t ! n \<noteq> text m ! n \<Longrightarrow> \<lparr>role = r, text = t\<rparr> \<noteq> m"
  by auto

lemma typed_not_marker: "\<not> is_marker \<lparr>role = User, text = typed_sparkles\<rparr>"
proof -
  have "typed_sparkles ! 2 = 0x68" by (simp add: typed_sparkles_def sparkles_def js_def)
  moreover have "text vocab_marker ! 2 = 0x49" "text rephrase_marker ! 2 = 0x49"
    "text roleplay_marker ! 2 = 0x53"
    by (simp_all add: vocab_marker_def rephrase_marker_def roleplay_marker_def
          sparkles_def js_def)
  ultimately have "\<lparr>role = User, text = typed_sparkles\<rparr> \<noteq> vocab_marker"
    "\<lparr>role = User, text = typed_sparkles\<rparr> \<noteq> rephrase_marker"
    "\<lparr>role = User, text = typed_sparkles\<rparr> \<noteq> roleplay_marker"
    by (simp_all add: differs_at [where n = 2])
  moreover have "length typed_sparkles < length tips_open"
    by (simp add: typed_sparkles_def tips_open_def sparkles_def js_def)
  ultimately show ?thesis
    by (auto simp: is_marker_def is_tips_marker_def typed_sparkles_not_listening
          vocab_ack_def rephrase_ack_def)
qed

text \<open>
  The claim as stated fails: a user who has sent only a message that starts with the
  sparkles character has a user Turn in the log that is no marker, yet the trigger is
  rejected with the error and appends nothing.
\<close>

theorem pronunciation_tips_counterexample:
  "\<not> busy (run [SendMessage typed_sparkles, Settled Thrown] (mounted True))
   \<and> \<lparr>role = User, text = typed_sparkles\<rparr>
       \<in> set (conversation (run [SendMessage typed_sparkles, Settled Thrown] (mounted True)))
   \<and> \<not> is_marker \<lparr>role = User, text = typed_sparkles\<rparr>
   \<and> getPronunciationTips (run [SendMessage typed_sparkles, Settled Thrown] (mounted True))
       = (run [SendMessage typed_sparkles, Settled Thrown] (mounted True))
           \<lparr>error := err_no_user_message\<rparr>"
proof -
  define s where "s = run [SendMessage typed_sparkles, Settled Thrown] (mounted True)"
  note s = typed_sent [folded s_def]
  have nb: "\<not> busy s" by (simp add: s busy_def mounted_def)
  have mem: "\<lparr>role = User, text = typed_sparkles\<rparr> \<in> set (conversation s)" by (simp add: s)
  have "lastUserMessage (conversation s) = None"
    by (simp add: s lastUserMessage_def isActualUserMessage_def typed_sparkles_starts
          greeting_def connection_apology_def)
  with nb have "getPronunciationTips s = s\<lparr>error := err_no_user_message\<rparr>"
    by (simp add: getPronunciationTips_def Let_def)
  with nb mem typed_not_marker show ?thesis
    unfolding s_def by blast
qed

text \<open>
  Examples: the mounted component, and a log in which a message that starts with the
  sparkles character follows an ordinary one, so that the older message is quoted.
\<close>

theorem pronunciation_tips_witness:
  "\<not> busy (mounted True)
   \<and> conversation (mounted True) = [greeting] \<and> \<not> isActualUserMessage greeting
   \<and> getPronunciationTips (mounted True) = (mounted True)\<lparr>error := err_no_user_message\<rparr>
   \<and> \<not> busy (run [SendMessage (js ''Hi''), Settled Thrown,
                    SendMessage typed_sparkles, Settled Thrown] (mounted True))
   \<and> conversation (run [SendMessage (js ''Hi''), Settled Thrown,
                         SendMessage typed_sparkles, Settled Thrown] (mounted True))
       = [greeting] @ \<lparr>role = User, text = js ''Hi''\<rparr>
         # [connection_apology, \<lparr>role = User, text = typed_sparkles\<rparr>, connection_apology]
   \<and> isActualUserMessage \<lparr>role = User, text = js ''Hi''\<rparr>
   \<and> \<not> is_marker \<lparr>role = User, text = js ''Hi''\<rparr>
   \<and> \<not> isActualUserMessage connection_apology
   \<and> \<not> isActualUserMessage \<lparr>role = User, text = typed_sparkles\<rparr>
   \<and> last (conversation (getPronunciationTips
              (run [SendMessage (js ''Hi''), Settled Thrown,
                    SendMessage typed_sparkles, Settled Thrown] (mounted True))))
       = tips_marker (js ''Hi'')
   \<and> last (effects (getPronunciationTips
              (run [SendMessage (js ''Hi''), Settled Thrown,
                    SendMessage typed_sparkles, Settled Thrown] (mounted True))))
       = Fetch (chatHistory
                  [greeting, \<lparr>role = User, text = js ''Hi''\<rparr>, connection_apology,
                   \<lparr>role = User, text = typed_sparkles\<rparr>, connection_apology]
                  (tips_prompt (js ''Hi'')))"
proof -
  have nb: "\<not> busy (mounted True)" by (simp add: busy_def mounted_def)
  have c0: "conversation (mounted True) = [greeting]" by (simp add: mounted_def)
  have g: "\<not> isActualUserMessage greeting"
    by (simp add: isActualUserMessage_def greeting_def)
  from pronunciation_tips [OF nb] c0 g
  have 1: "getPronunciationTips (mounted True) = (mounted True)\<lparr>error := err_no_user_message\<rparr>"
    by simp
  define s where "s = run [SendMessage (js ''Hi''), Settled Thrown,
                    SendMessage typed_sparkles, Settled Thrown] (mounted True)"
  define h where "h = run [SendMessage (js ''Hi''), Settled Thrown] (mounted True)"
  have h: "h = (mounted True)\<lparr>conversation := [greeting, \<lparr>role = User, text = js ''Hi''\<rparr>, connection_apology],
       error := err_network,
       effects := [Fetch (chatHistory [greeting] (js ''Hi''))]\<rparr>"
    by (simp add: h_def step_SendMessage step_Settled Hi_sent sendPromptToGemini_settled_def)
       (simp add: mounted_def)
  have ca: "text connection_apology \<noteq> listening_text"
    by (simp add: connection_apology_def listening_text_def js_def)
  have "sendMessage typed_sparkles h =
     h\<lparr>conversation := [greeting, \<lparr>role = User, text = js ''Hi''\<rparr>, connection_apology,
                         \<lparr>role = User, text = typed_sparkles\<rparr>],
       error := [], isLoading := True,
       effects := effects h @ [Fetch (chatHistory (conversation h) typed_sparkles)],
       pending_fetches := 1\<rparr>"
    by (simp add: h trigger_defs trim_typed_sparkles typed_sparkles_nonempty
          greeting_not_listening Hi_not_listening ca)
  moreover have "s = run [SendMessage typed_sparkles, Settled Thrown] h"
    by (simp add: s_def h_def)
  ultimately have s: "conversation s = [greeting, \<lparr>role = User, text = js ''Hi''\<rparr>, connection_apology,
                         \<lparr>role = User, text = typed_sparkles\<rparr>, connection_apology]"
    "\<not> isLoading s" "\<not> isListening s" "\<not> isSpeaking s" "awaitingFeatureInput s = None"
    by (simp_all add: step_SendMessage step_Settled sendPromptToGemini_settled_def h)
       (simp_all add: mounted_def)
  then have nb2: "\<not> busy s" by (simp add: busy_def)
  from s have c2: "conversation s = [greeting] @ \<lparr>role = User, text = js ''Hi''\<rparr>
         # [connection_apology, \<lparr>role = User, text = typed_sparkles\<rparr>, connection_apology]"
    by simp
  have u: "isActualUserMessage \<lparr>role = User, text = js ''Hi''\<rparr>"
    by (simp add: isActualUserMessage_def Hi_not_listening Hi_no_sparkles)
  have a: "\<not> isActualUserMessage connection_apology"
    by (simp add: isActualUserMessage_def connection_apology_def)
  have t: "\<not> isActualUserMessage \<lparr>role = User, text = typed_sparkles\<rparr>"
    by (simp add: isActualUserMessage_def typed_sparkles_starts)
  note pt = pronunciation_tips [OF nb2]
  from pt u have nm: "\<not> is_marker \<lparr>role = User, text = js ''Hi''\<rparr>" by blast
  from a t have post: "\<forall>x\<in>set [connection_apology, \<lparr>role = User, text = typed_sparkles\<rparr>,
                                    connection_apology]. \<not> isActualUserMessage x"
    by simp
  from pt c2 u post
  have "getPronunciationTips s =
              s\<lparr>error := [],
                conversation := conversation s @ [tips_marker (text \<lparr>role = User, text = js ''Hi''\<rparr>)],
                isLoading := True,
                effects := effects s @ [Fetch (chatHistory (conversation s)
                    (tips_prompt (text \<lparr>role = User, text = js ''Hi''\<rparr>)))],
                pending_fetches := pending_fetches s + 1\<rparr>"
    by blast
  then have 2: "last (conversation (getPronunciationTips s)) = tips_marker (js ''Hi'')"
    and 3: "last (effects (getPronunciationTips s))
       = Fetch (chatHistory
                  [greeting, \<lparr>role = User, text = js ''Hi''\<rparr>, connection_apology,
                   \<lparr>role = User, text = typed_sparkles\<rparr>, connection_apology]
                  (tips_prompt (js ''Hi'')))"
    using s(1) by simp_all
  from nb c0 g 1 nb2 c2 u nm a t 2 3 show ?thesis
    unfolding s_def by blast
qed

subsection \<open>Settled requests\<close>

text \<open>
  Claim C6, as amended. A thrown request appends the connection apology, sets the network
  error, clears loading and speaks nothing. A response without a usable candidate appends
  a model Turn with the error message of the body, or with the fixed apology when the
  body has no error, clears loading, and hands that text to \<open>speakMessage\<close> like any
  reply: with a synthesis engine, the fixed apology is the utterance handed to it.
\<close>

theorem api_failure:
  "sendPromptToGemini_settled Thrown s =
     s\<lparr>error := err_network, conversation := conversation s @ [connection_apology],
       isLoading := False\<rparr>
   \<and> (usable_candidate r = None \<longrightarrow>
        conversation (sendPromptToGemini_settled (Resolved r) s) =
          conversation s @ [\<lparr>role = Model, text = aiResponseText r\<rparr>]
        \<and> \<not> isLoading (sendPromptToGemini_settled (Resolved r) s)
        \<and> sendPromptToGemini_settled (Resolved r) s =
            (speakMessage (aiResponseText r)
               (s\<lparr>conversation := conversation s @ [\<lparr>role = Model, text = aiResponseText r\<rparr>]\<rparr>))
            \<lparr>isLoading := False\<rparr>
        \<and> (\<forall>e. result_error r = Some e \<longrightarrow>
              aiResponseText r =
                js ''Error: '' @ (case err_message e of
                                   Some m \<Rightarrow> if m \<noteq> [] then m else unknown_api_error
                                 | None \<Rightarrow> unknown_api_error))
        \<and> (result_error r = None \<longrightarrow>
              aiResponseText r = fallback_apology
              \<and> (synthRef s \<longrightarrow>
                   last (effects (sendPromptToGemini_settled (Resolved r) s)) =
                     SynthSpeak fallback_apology)))"
proof (intro conjI impI allI)
  show "sendPromptToGemini_settled Thrown s =
     s\<lparr>error := err_network, conversation := conversation s @ [connection_apology],
       isLoading := False\<rparr>"
    by (simp add: sendPromptToGemini_settled_def)
next
  show "conversation (sendPromptToGemini_settled (Resolved r) s) =
          conversation s @ [\<lparr>role = Model, text = aiResponseText r\<rparr>]"
    by (simp add: sendPromptToGemini_settled_def Let_def)
next
  show "\<not> isLoading (sendPromptToGemini_settled (Resolved r) s)"
    by (simp add: sendPromptToGemini_settled_def Let_def)
next
  show "sendPromptToGemini_settled (Resolved r) s =
            (speakMessage (aiResponseText r)
               (s\<lparr>conversation := conversation s @ [\<lparr>role = Model, text = aiResponseText r\<rparr>]\<rparr>))
            \<lparr>isLoading := False\<rparr>"
    by (simp add: sendPromptToGemini_settled_def Let_def)
next
  fix e assume "usable_candidate r = None" "result_error r = Some e"
  then show "aiResponseText r =
                js ''Error: '' @ (case err_message e of
                                   Some m \<Rightarrow> if m \<noteq> [] then m else unknown_api_error
                                 | None \<Rightarrow> unknown_api_error)"
    by (simp add: aiResponseText_def)
next
  assume a: "usable_candidate r = None" "result_error r = None"
  then show t: "aiResponseText r = fallback_apology"
    by (simp add: aiResponseText_def)
  assume "synthRef s"
  with t show "last (effects (sendPromptToGemini_settled (Resolved r) s)) =
                     SynthSpeak fallback_apology"
    by (simp add: sendPromptToGemini_settled_def Let_def speakMessage_effects [OF _ chunk_fallback])
qed

text \<open>
  The claim as stated fails: after a body with neither candidates nor error the fixed
  apology is spoken.
\<close>

theorem api_failure_counterexample:
  "SynthSpeak fallback_apology \<in>
     set (effects (sendPromptToGemini_settled (Resolved (Result None None))
                     (sendMessage (js ''Hi'') (mounted True))))"
proof -
  have "synthRef (sendMessage (js ''Hi'') (mounted True))"
    by (simp add: sendMessage_def closure_of_def sendMessage_in_def Let_def sendPromptToGemini_def mounted_def
          split: option.splits feature.splits)
  then have "last (effects (sendPromptToGemini_settled (Resolved (Result None None))
                     (sendMessage (js ''Hi'') (mounted True)))) = SynthSpeak fallback_apology"
    by (simp add: sendPromptToGemini_settled_def Let_def aiResponseText_def usable_candidate_def
          speakMessage_effects [OF _ chunk_fallback])
  moreover have "effects (sendPromptToGemini_settled (Resolved (Result None None))
                     (sendMessage (js ''Hi'') (mounted True))) \<noteq> []"
    by (simp add: sendPromptToGemini_settled_def Let_def aiResponseText_def usable_candidate_def
          speakMessage_def speakNext_def synth_speak_def chunk_fallback
          sendMessage_def closure_of_def sendMessage_in_def sendPromptToGemini_def mounted_def stopSpeaking_def)
  ultimately show ?thesis by (metis last_in_set)
qed

theorem api_failure_witness:
  "usable_candidate (Result None None) = None \<and> result_error (Result None None) = None
   \<and> synthRef (sendMessage (js ''Hi'') (mounted True))
   \<and> conversation (sendPromptToGemini_settled (Resolved (Result None None))
                     (sendMessage (js ''Hi'') (mounted True)))
       = [greeting, \<lparr>role = User, text = js ''Hi''\<rparr>, \<lparr>role = Model, text = fallback_apology\<rparr>]
   \<and> \<not> isLoading (sendPromptToGemini_settled (Resolved (Result None None))
                     (sendMessage (js ''Hi'') (mounted True)))
   \<and> last (effects (sendPromptToGemini_settled (Resolved (Result None None))
                     (sendMessage (js ''Hi'') (mounted True))))
       = SynthSpeak fallback_apology
   \<and> usable_candidate (Result (Some []) (Some (ApiError (Some (js ''Hi''))))) = None
   \<and> aiResponseText (Result (Some []) (Some (ApiError (Some (js ''Hi''))))) = js ''Error: '' @ js ''Hi''"
proof -
  have u: "usable_candidate (Result None None) = None" "result_error (Result None None) = None"
    by (simp_all add: usable_candidate_def)
  have sy: "synthRef (sendMessage (js ''Hi'') (mounted True))"
    by (simp add: Hi_sent) (simp add: mounted_def)
  have cv: "conversation (sendMessage (js ''Hi'') (mounted True))
      = [greeting, \<lparr>role = User, text = js ''Hi''\<rparr>]"
    by (simp add: Hi_sent)
  note af = api_failure [of "sendMessage (js ''Hi'') (mounted True)" "Result None None"]
  from af u have ai: "aiResponseText (Result None None) = fallback_apology"
    by blast
  from af u have "conversation (sendPromptToGemini_settled (Resolved (Result None None))
                     (sendMessage (js ''Hi'') (mounted True)))
       = conversation (sendMessage (js ''Hi'') (mounted True))
         @ [\<lparr>role = Model, text = aiResponseText (Result None None)\<rparr>]"
    by blast
  with ai cv have 1: "conversation (sendPromptToGemini_settled (Resolved (Result None None))
                     (sendMessage (js ''Hi'') (mounted True)))
       = [greeting, \<lparr>role = User, text = js ''Hi''\<rparr>, \<lparr>role = Model, text = fallback_apology\<rparr>]"
    by simp
  from af u have 2: "\<not> isLoading (sendPromptToGemini_settled (Resolved (Result None None))
                     (sendMessage (js ''Hi'') (mounted True)))"
    by blast
  from af u sy have 3: "last (effects (sendPromptToGemini_settled (Resolved (Result None None))
                     (sendMessage (js ''Hi'') (mounted True))))
       = SynthSpeak fallback_apology"
    by blast
  have u2: "usable_candidate (Result (Some []) (Some (ApiError (Some (js ''Hi''))))) = None"
    by (simp add: usable_candidate_def)
  from api_failure [of "mounted True" "Result (Some []) (Some (ApiError (Some (js ''Hi''))))"] u2
  have 4: "aiResponseText (Result (Some []) (Some (ApiError (Some (js ''Hi''))))) = js ''Error: '' @ js ''Hi''"
    by (simp add: Hi_nonempty)
  from u sy 1 2 3 u2 4 show ?thesis by blast
qed

subsection \<open>Synthesis errors\<close>

lemma synth_deliver_idle: "inflight s = None \<Longrightarrow> synth_deliver sig s = s"
  by (simp add: synth_deliver_def)

lemma synth_deliver_all_idle: "inflight s = None \<Longrightarrow> synth_deliver_all sigs s = s"
  by (induction sigs) (simp_all add: synth_deliver_idle)

lemma err_synth_nonempty: "err_synth e \<noteq> []"
  by (simp add: err_synth_def js_def)

text \<open>
  Claim C8. The error handler of an utterance hands nothing to the engine, clears
  \<open>isSpeaking\<close>, sets a non-empty error and leaves the queue and its cursor alone; once
  the error of the utterance in flight is delivered, no further synthesis signal changes
  the state, so no later chunk is ever handed to the engine.
\<close>

theorem synthesis_error_abort:
  "effects (utterance_onerror e s) = effects s
   \<and> \<not> isSpeaking (utterance_onerror e s)
   \<and> error (utterance_onerror e s) = err_synth e \<and> err_synth e \<noteq> []
   \<and> utt_chunks (utterance_onerror e s) = utt_chunks s
   \<and> currentChunkIndex (utterance_onerror e s) = currentChunkIndex s
   \<and> (inflight s \<noteq> None \<longrightarrow>
        synth_deliver (SigError e) s =
          (utterance_onerror e s)\<lparr>synth_speaking := False, inflight := None\<rparr>
        \<and> (\<forall>sigs. synth_deliver_all sigs (synth_deliver (SigError e) s) =
                    synth_deliver (SigError e) s))"
proof -
  have a: "inflight s \<noteq> None \<Longrightarrow> synth_deliver (SigError e) s =
          (utterance_onerror e s)\<lparr>synth_speaking := False, inflight := None\<rparr>"
    by (auto simp: synth_deliver_def utterance_onerror_def)
  have b: "inflight s \<noteq> None \<Longrightarrow> synth_deliver_all sigs (synth_deliver (SigError e) s) =
                    synth_deliver (SigError e) s" for sigs
    by (rule synth_deliver_all_idle) (simp add: a)
  show ?thesis
    using a b by (simp add: utterance_onerror_def err_synth_nonempty)
qed

theorem synthesis_error_abort_witness:
  "inflight (synth_deliver SigStart (speakMessage long_reply (mounted True))) \<noteq> None
   \<and> length (utt_chunks (synth_deliver SigStart (speakMessage long_reply (mounted True)))) = 2
   \<and> isSpeaking (synth_deliver SigStart (speakMessage long_reply (mounted True)))
   \<and> effects (synth_deliver SigStart (speakMessage long_reply (mounted True)))
       = [SynthSpeak (vocab_promptText @ js '' Certainly.'')]
   \<and> effects (synth_deliver_all [SigEnd, SigStart]
               (synth_deliver (SigError (js ''Hi''))
                  (synth_deliver SigStart (speakMessage long_reply (mounted True)))))
       = [SynthSpeak (vocab_promptText @ js '' Certainly.'')]
   \<and> \<not> isSpeaking (synth_deliver_all [SigEnd, SigStart]
               (synth_deliver (SigError (js ''Hi''))
                  (synth_deliver SigStart (speakMessage long_reply (mounted True)))))
   \<and> error (synth_deliver_all [SigEnd, SigStart]
               (synth_deliver (SigError (js ''Hi''))
                  (synth_deliver SigStart (speakMessage long_reply (mounted True)))))
       = err_synth (js ''Hi'')
   \<and> length (effects (synth_deliver SigEnd
                (synth_deliver SigStart (speakMessage long_reply (mounted True))))) = 2"
proof -
  define s where "s = synth_deliver SigStart (speakMessage long_reply (mounted True))"
  note p = playing_mounted [OF chunk_long_reply, folded s_def]
  have i: "inflight s \<noteq> None" by (simp add: p)
  have n: "length (utt_chunks s) = 2" by (simp add: p)
  have sp: "isSpeaking s" by (simp add: p)
  have ef: "effects s = [SynthSpeak (vocab_promptText @ js '' Certainly.'')]" by (simp add: p)
  note ab = synthesis_error_abort [of "js ''Hi''" s]
  from ab i have d: "synth_deliver (SigError (js ''Hi'')) s =
          (utterance_onerror (js ''Hi'') s)\<lparr>synth_speaking := False, inflight := None\<rparr>"
    and stay: "synth_deliver_all [SigEnd, SigStart] (synth_deliver (SigError (js ''Hi'')) s) =
                    synth_deliver (SigError (js ''Hi'')) s"
    by blast+
  from ab have e1: "effects (utterance_onerror (js ''Hi'') s) = effects s"
    and e2: "\<not> isSpeaking (utterance_onerror (js ''Hi'') s)"
    and e3: "error (utterance_onerror (js ''Hi'') s) = err_synth (js ''Hi'')"
    by blast+
  have 1: "effects (synth_deliver_all [SigEnd, SigStart] (synth_deliver (SigError (js ''Hi'')) s))
       = [SynthSpeak (vocab_promptText @ js '' Certainly.'')]"
    by (simp only: stay) (simp add: d e1 ef)
  have 2: "\<not> isSpeaking (synth_deliver_all [SigEnd, SigStart] (synth_deliver (SigError (js ''Hi'')) s))"
    by (simp only: stay) (simp add: d e2)
  have 3: "error (synth_deliver_all [SigEnd, SigStart] (synth_deliver (SigError (js ''Hi'')) s))
       = err_synth (js ''Hi'')"
    by (simp only: stay) (simp add: d e3)
  have 4: "length (effects (synth_deliver SigEnd s)) = 2"
    by (simp add: p synth_deliver_def utterance_onend_def Let_def speakNext_def synth_speak_def)
  from i n sp ef 1 2 3 4 show ?thesis
    unfolding s_def by blast
qed

end
